theory Spec2Isabelle
  imports Main "HOL-Library.Sublist" "HOL-Library.Char_ord" "HOL-Library.List_Lexorder"
    "HOL-Library.Multiset"
begin

section \<open>The sourcing-events report of app.py\<close>

text \<open>
  The script reads two sheets into data frames, derives columns, joins, filters by two
  selections and aggregates. A data frame is modelled as the list of its rows, a row as a
  record of the columns the script reads or writes, a nullable cell as an \<open>option\<close>
  (\<open>None\<close> is NaN, NaT or \<open><NA>\<close>). A character of a \<open>string\<close> stands for one code
  point below 256. The text columns Material, Name and Organization are object columns: a
  cell is a string or null. An exception of the script is a value of \<open>error\<close>.
\<close>

subsection \<open>Errors\<close>

datatype error = TypeError | IndexError

text \<open>Running a row function down a column stops at the first exception.\<close>

fun traverse :: "('a \<Rightarrow> error + 'b) \<Rightarrow> 'a list \<Rightarrow> error + 'b list" where
  "traverse f [] = Inr []"
| "traverse f (x # xs) =
     (case f x of
        Inl e \<Rightarrow> Inl e
      | Inr y \<Rightarrow> (case traverse f xs of Inl e \<Rightarrow> Inl e | Inr ys \<Rightarrow> Inr (y # ys)))"

subsection \<open>The loaded frames\<close>

text \<open>
  \<open>Date_of_entry\<close> carries the cell as \<open>pd.to_datetime(..., format="%d/%m/%Y",
  errors="coerce")\<close> of line 38 reads it: \<open>None\<close> is NaT.
\<close>

record timestamp =
  ts_year :: nat
  ts_month :: nat
  ts_day :: nat

record event =
  Material :: "string option"
  Name :: "string option"
  Organization :: "string option"
  Date_of_entry :: "timestamp option"

text \<open>The two columns of the sheet "New Structure" that line 35 keeps.\<close>

record cluster_row =
  PC_key :: "int option"
  SMC :: "string option"

subsection \<open>Lines 30-31: the purchasing category\<close>

definition isdigit :: "char \<Rightarrow> bool" where
  "isdigit c = (c \<in> set ''0123456789'')"

definition digit_val :: "char \<Rightarrow> nat" where
  "digit_val c = of_char c - 48"

definition int_of_digits :: "string \<Rightarrow> nat" where
  "int_of_digits ds = foldl (\<lambda>a c. 10 * a + digit_val c) 0 ds"

text \<open>
  \<open>str.extract(r"\[(\d+)\]")\<close>: the group of the leftmost match. At a start position the
  pattern matches when an opening bracket is followed by the longest run of digits, not
  empty, and then a closing bracket.
\<close>

fun str_extract :: "string \<Rightarrow> string option" where
  "str_extract [] = None"
| "str_extract (c # cs) =
     (if c = CHR ''['' \<and> takeWhile isdigit cs \<noteq> []
         \<and> (case dropWhile isdigit cs of [] \<Rightarrow> False | d # _ \<Rightarrow> d = CHR '']'')
      then Some (takeWhile isdigit cs)
      else str_extract cs)"

text \<open>
  \<open>astype(float)\<close> reads the digits as a float64: the integer rounded to 53 significant
  bits, ties to even, infinite (\<open>None\<close>) from \<open>2 ^ 1024\<close>.
\<close>

fun bit_length :: "nat \<Rightarrow> nat" where
  "bit_length n = (if n = 0 then 0 else Suc (bit_length (n div 2)))"

declare bit_length.simps [simp del]

definition float64_of_nat :: "nat \<Rightarrow> nat option" where
  "float64_of_nat n =
     (let e = bit_length n - 53;
          q = n div 2 ^ e;
          r = n mod 2 ^ e;
          m = (if 2 * r < 2 ^ e \<or> (2 * r = 2 ^ e \<and> even q) then q else q + 1)
      in if m * 2 ^ e < 2 ^ 1024 then Some (m * 2 ^ e) else None)"

text \<open>
  \<open>astype("Int64")\<close> of a float: the cast to int64 must give back the same number, or the
  cast raises TypeError ("cannot safely cast non-equivalent float64 to int64").
\<close>

definition astype_Int64 :: "nat option \<Rightarrow> error + int" where
  "astype_Int64 f =
     (case f of
        None \<Rightarrow> Inl TypeError
      | Some v \<Rightarrow> if v < 2 ^ 63 then Inr (int v) else Inl TypeError)"

definition purchasing_category :: "string option \<Rightarrow> error + int option" where
  "purchasing_category material =
     (case material of
        None \<Rightarrow> Inr None
      | Some s \<Rightarrow>
          (case str_extract s of
             None \<Rightarrow> Inr None
           | Some ds \<Rightarrow>
               (case astype_Int64 (float64_of_nat (int_of_digits ds)) of
                  Inl e \<Rightarrow> Inl e
                | Inr i \<Rightarrow> Inr (Some i))))"

record event_pc = event +
  PC :: "int option"

definition add_PC :: "event \<Rightarrow> error + event_pc" where
  "add_PC r =
     (case purchasing_category (Material r) of
        Inl e \<Rightarrow> Inl e
      | Inr p \<Rightarrow>
          Inr \<lparr>Material = Material r, Name = Name r, Organization = Organization r,
               Date_of_entry = Date_of_entry r, PC = p\<rparr>)"

subsection \<open>Line 32: the test records\<close>

text \<open>\<open>str.lower()\<close> on code points below 256.\<close>

definition lower_char :: "char \<Rightarrow> char" where
  "lower_char c =
     (let n = (of_char c :: nat)
      in if (65 \<le> n \<and> n \<le> 90) \<or> (192 \<le> n \<and> n \<le> 222 \<and> n \<noteq> 215)
         then char_of (n + 32) else c)"

definition str_lower :: "string \<Rightarrow> string" where
  "str_lower s = map lower_char s"

text \<open>\<open>str.contains(pat)\<close> for a pattern of plain letters: a search at every position.\<close>

fun str_contains :: "string \<Rightarrow> string \<Rightarrow> bool" where
  "str_contains pat [] = (pat = [])"
| "str_contains pat (c # cs) = (prefix pat (c # cs) \<or> str_contains pat cs)"

text \<open>The mask of line 32; \<open>na=False\<close> makes a null name a non-match.\<close>

definition is_test :: "string option \<Rightarrow> bool" where
  "is_test name =
     (case name of None \<Rightarrow> False | Some s \<Rightarrow> str_contains ''test'' (str_lower s))"

definition exclude_tests :: "event_pc list \<Rightarrow> event_pc list" where
  "exclude_tests df = filter (\<lambda>r. \<not> is_test (Name r)) df"

subsection \<open>Lines 34-39: the cluster mapping and the join\<close>

text \<open>\<open>drop_duplicates()\<close> keeps the first of equal rows; two nulls count as equal.\<close>

fun drop_duplicates :: "'a list \<Rightarrow> 'a list" where
  "drop_duplicates [] = []"
| "drop_duplicates (x # xs) = x # drop_duplicates (filter (\<lambda>y. y \<noteq> x) xs)"

record merged = event_pc +
  Groups :: "string option"

definition with_Groups :: "event_pc \<Rightarrow> string option \<Rightarrow> merged" where
  "with_Groups l g =
     \<lparr>Material = Material l, Name = Name l, Organization = Organization l,
      Date_of_entry = Date_of_entry l, PC = PC l, Groups = g\<rparr>"

text \<open>
  \<open>df1.merge(df2, on="Purchasing Category (PC)", how="left")\<close>: the left rows in their
  order, each once per right row with an equal key, once with a null cluster when there is
  none. pandas matches a null key with a null key.
\<close>

definition merge_left :: "event_pc list \<Rightarrow> cluster_row list \<Rightarrow> merged list" where
  "merge_left left right =
     concat (map (\<lambda>l.
       (case filter (\<lambda>r. PC_key r = PC l) right of
          [] \<Rightarrow> [with_Groups l None]
        | ms \<Rightarrow> map (\<lambda>r. with_Groups l (SMC r)) ms)) left)"

subsection \<open>Lines 41-49: the organization group\<close>

definition keep_values :: "string list" where
  "keep_values =
     [''PHOENIX CONTACT E-Mobility GmbH'',
      ''Phoenix Contact GmbH & Co. KG - Werkzeugbau'']"

text \<open>\<open>np.where(isin(keep_values), Organization, "Phoenix Contact - GPN")\<close>; a null is in no list.\<close>

definition Organization1_of :: "string option \<Rightarrow> string" where
  "Organization1_of org =
     (case org of
        None \<Rightarrow> ''Phoenix Contact - GPN''
      | Some s \<Rightarrow> if s \<in> set keep_values then s else ''Phoenix Contact - GPN'')"

subsection \<open>Lines 51-54: the month\<close>

text \<open>
  \<open>.dt.month\<close> is an integer column when no date is NaT, and a float64 column with NaN
  for NaT as soon as one is. \<open>FloatMonth k\<close> is the float \<open>k.0\<close>.
\<close>

datatype month_val = IntMonth nat | FloatMonth nat | NaN

definition dt_month :: "timestamp option list \<Rightarrow> month_val list" where
  "dt_month col =
     (if None \<in> set col
      then map (\<lambda>d. case d of None \<Rightarrow> NaN | Some t \<Rightarrow> FloatMonth (ts_month t)) col
      else map (\<lambda>d. case d of None \<Rightarrow> NaN | Some t \<Rightarrow> IntMonth (ts_month t)) col)"

text \<open>\<open>calendar.month_name\<close>: thirteen entries, the first one empty.\<close>

definition calendar_month_name :: "string list" where
  "calendar_month_name =
     [[], ''January'', ''February'', ''March'', ''April'', ''May'', ''June'', ''July'',
      ''August'', ''September'', ''October'', ''November'', ''December'']"

text \<open>
  The lambda of line 52, \<open>calendar.month_name[x] if pd.notna(x) else ""\<close>. The sequence is
  indexed through a list: an index past the end raises IndexError, a float index raises
  TypeError ("list indices must be integers or slices, not float").
\<close>

definition month_name_of :: "month_val \<Rightarrow> error + string" where
  "month_name_of x =
     (case x of
        NaN \<Rightarrow> Inr []
      | IntMonth i \<Rightarrow>
          if i < length calendar_month_name then Inr (calendar_month_name ! i)
          else Inl IndexError
      | FloatMonth k \<Rightarrow> Inl TypeError)"

definition month_order :: "string list" where
  "month_order = drop 1 calendar_month_name"

text \<open>\<open>pd.Categorical(values, categories=...)\<close>: a value outside the categories is null.\<close>

definition Categorical :: "string list \<Rightarrow> string \<Rightarrow> string option" where
  "Categorical categories v = (if v \<in> set categories then Some v else None)"

record enriched = merged +
  Organization1 :: string
  month :: month_val
  month_name :: "string option"

definition with_columns :: "merged \<Rightarrow> month_val \<Rightarrow> string \<Rightarrow> enriched" where
  "with_columns r m n =
     \<lparr>Material = Material r, Name = Name r, Organization = Organization r,
      Date_of_entry = Date_of_entry r, PC = PC r, Groups = Groups r,
      Organization1 = Organization1_of (Organization r), month = m,
      month_name = Categorical month_order n\<rparr>"

definition add_columns :: "merged list \<Rightarrow> error + enriched list" where
  "add_columns df =
     (let ms = dt_month (map Date_of_entry df)
      in case traverse month_name_of ms of
           Inl e \<Rightarrow> Inl e
         | Inr names \<Rightarrow> Inr (map (\<lambda>(r, m, n). with_columns r m n) (zip df (zip ms names))))"

text \<open>Lines 29-54, from the two loaded frames to \<open>df_merged\<close>.\<close>

definition transform :: "event list \<Rightarrow> cluster_row list \<Rightarrow> error + enriched list" where
  "transform events clusters =
     (case traverse add_PC events of
        Inl e \<Rightarrow> Inl e
      | Inr df1 \<Rightarrow> add_columns (merge_left (exclude_tests df1) (drop_duplicates clusters)))"

subsection \<open>Lines 61-67: the filters\<close>

text \<open>\<open>isin\<close> on the categorical column: a null month name is in no selection of names.\<close>

definition filtered_df :: "enriched list \<Rightarrow> string list \<Rightarrow> string list \<Rightarrow> enriched list" where
  "filtered_df df orgs months =
     filter (\<lambda>r. Organization1 r \<in> set orgs
               \<and> (case month_name r of None \<Rightarrow> False | Some m \<Rightarrow> m \<in> set months)) df"

subsection \<open>Lines 76-141: the aggregates\<close>

text \<open>
  The script leaves the \<open>observed\<close> argument of \<open>groupby\<close> and \<open>pivot_table\<close> to the
  library, so it is a parameter here: False before pandas 3.0, True from 3.0. A key column
  is an object column, whose groups are the values present, sorted, or a categorical
  column, whose groups are its categories in their order: all of them when \<open>observed\<close> is
  False, the ones present when it is True. A row with a null key is in no group.
\<close>

datatype axis = Object | Category "string list"

definition axis_levels :: "bool \<Rightarrow> axis \<Rightarrow> string list \<Rightarrow> string list" where
  "axis_levels observed ax vals =
     (case ax of
        Object \<Rightarrow> sort (remdups vals)
      | Category categories \<Rightarrow>
          if observed then filter (\<lambda>c. c \<in> set vals) categories else categories)"

definition group_size ::
  "('r \<Rightarrow> string option) \<Rightarrow> ('r \<Rightarrow> string option) \<Rightarrow> 'r list \<Rightarrow> string \<Rightarrow> string \<Rightarrow> nat" where
  "group_size key1 key2 df a b = length (filter (\<lambda>r. key1 r = Some a \<and> key2 r = Some b) df)"

text \<open>
  Line 76, \<open>groupby(["Organization1", "month_name"]).size().reset_index(name="count")\<close>:
  a row per organization and month, sorted by organization, then by month category. With
  \<open>observed\<close> False every organization present gets all twelve months.
\<close>

definition monthly_counts :: "bool \<Rightarrow> enriched list \<Rightarrow> (string \<times> string \<times> nat) list" where
  "monthly_counts observed df =
     (let kept = filter (\<lambda>r. month_name r \<noteq> None) df;
          orgs = axis_levels observed Object (map Organization1 kept);
          months = axis_levels observed (Category month_order) (List.map_filter month_name kept)
      in concat (map (\<lambda>org.
           map (\<lambda>m. (org, m, group_size (\<lambda>r. Some (Organization1 r)) month_name kept org m))
             (filter (\<lambda>m. if observed
                           then 0 < group_size (\<lambda>r. Some (Organization1 r)) month_name kept org m
                           else True) months)) orgs))"

text \<open>A cross-tabulation: the row labels, the column labels, the cells row by row.\<close>

record pivot =
  p_index :: "string list"
  p_columns :: "string list"
  p_cells :: "nat option list list"

text \<open>
  \<open>pivot_table(index=..., columns=..., aggfunc="size", fill_value=0)\<close>: the group sizes,
  unstacked, a combination without rows filled with zero. No row with both keys leaves no
  label on either axis.
\<close>

definition pivot_table ::
  "bool \<Rightarrow> ('r \<Rightarrow> string option) \<Rightarrow> axis \<Rightarrow> ('r \<Rightarrow> string option) \<Rightarrow> axis \<Rightarrow> 'r list \<Rightarrow> pivot" where
  "pivot_table observed ikey iax ckey cax df =
     (let kept = filter (\<lambda>r. ikey r \<noteq> None \<and> ckey r \<noteq> None) df;
          idx = (if kept = [] then [] else axis_levels observed iax (List.map_filter ikey kept));
          cols = (if kept = [] then [] else axis_levels observed cax (List.map_filter ckey kept))
      in \<lparr>p_index = idx, p_columns = cols,
          p_cells = map (\<lambda>i. map (\<lambda>c. Some (group_size ikey ckey kept i c)) cols) idx\<rparr>)"

text \<open>\<open>reindex(labels)\<close>: the rows of the labels, a missing row filled with NaN.\<close>

definition reindex :: "string list \<Rightarrow> pivot \<Rightarrow> pivot" where
  "reindex labels t =
     \<lparr>p_index = labels, p_columns = p_columns t,
      p_cells = map (\<lambda>l.
        (case map_of (zip (p_index t) (p_cells t)) l of
           Some row \<Rightarrow> row
         | None \<Rightarrow> map (\<lambda>c. None) (p_columns t))) labels\<rparr>"

text \<open>\<open>reindex(columns=labels, fill_value=...)\<close>: a missing column filled with the value.\<close>

definition reindex_columns :: "string list \<Rightarrow> nat \<Rightarrow> pivot \<Rightarrow> pivot" where
  "reindex_columns labels fill_value t =
     \<lparr>p_index = p_index t, p_columns = labels,
      p_cells = map (\<lambda>row.
        map (\<lambda>l. (case map_of (zip (p_columns t) row) l of
                      Some v \<Rightarrow> v
                    | None \<Rightarrow> Some fill_value)) labels) (p_cells t)\<rparr>"

text \<open>Line 92.\<close>

definition df_gpn :: "enriched list \<Rightarrow> enriched list" where
  "df_gpn fdf = filter (\<lambda>r. Organization1 r = ''Phoenix Contact - GPN'') fdf"

text \<open>Lines 94-95 and 108-109.\<close>

definition pivot_cluster :: "bool \<Rightarrow> enriched list \<Rightarrow> pivot" where
  "pivot_cluster observed gpn =
     reindex_columns month_order 0
       (pivot_table observed Groups Object month_name (Category month_order) gpn)"

definition pivot_org :: "bool \<Rightarrow> enriched list \<Rightarrow> pivot" where
  "pivot_org observed gpn =
     reindex_columns month_order 0
       (pivot_table observed Organization Object month_name (Category month_order) gpn)"

text \<open>Lines 135 and 141.\<close>

definition pivot_table1 :: "bool \<Rightarrow> enriched list \<Rightarrow> pivot" where
  "pivot_table1 observed fdf =
     reindex month_order
       (pivot_table observed month_name (Category month_order)
          (\<lambda>r. Some (Organization1 r)) Object fdf)"

definition pivot_table2 :: "bool \<Rightarrow> enriched list \<Rightarrow> pivot" where
  "pivot_table2 observed gpn =
     reindex month_order
       (pivot_table observed month_name (Category month_order) Groups Object gpn)"

text \<open>
  Lines 65-141, what one run shows for a pair of selections. The charts and the table of
  the fallback subset are skipped (\<open>None\<close>) when that subset is empty.
\<close>

record report =
  total_events :: nat
  chart_monthly :: "(string \<times> string \<times> nat) list"
  chart_cluster :: "pivot option"
  chart_org :: "pivot option"
  table1 :: pivot
  table2 :: "pivot option"

definition render :: "bool \<Rightarrow> enriched list \<Rightarrow> string list \<Rightarrow> string list \<Rightarrow> report" where
  "render observed df orgs months =
     (let fdf = filtered_df df orgs months;
          gpn = df_gpn fdf
      in \<lparr>total_events = length fdf,
          chart_monthly = monthly_counts observed fdf,
          chart_cluster = (if gpn \<noteq> [] then Some (pivot_cluster observed gpn) else None),
          chart_org = (if gpn \<noteq> [] then Some (pivot_org observed gpn) else None),
          table1 = pivot_table1 observed fdf,
          table2 = (if gpn \<noteq> [] then Some (pivot_table2 observed gpn) else None)\<rparr>)"

subsection \<open>The notions of the specification\<close>

text \<open>
  A run of digits enclosed in square brackets inside \<open>s\<close>: what stands before it, the
  digits, and what follows.
\<close>

definition bracketed_run :: "string \<Rightarrow> string \<Rightarrow> string \<Rightarrow> string \<Rightarrow> bool" where
  "bracketed_run s pre ds post =
     (s = pre @ CHR ''['' # ds @ CHR '']'' # post \<and> ds \<noteq> [] \<and> list_all isdigit ds)"

text \<open>The substring "test" in any letter case.\<close>

definition any_case_test :: "string \<Rightarrow> bool" where
  "any_case_test s =
     (\<exists>pre a b c d post. s = pre @ [a, b, c, d] @ post
        \<and> a \<in> {CHR ''t'', CHR ''T''} \<and> b \<in> {CHR ''e'', CHR ''E''}
        \<and> c \<in> {CHR ''s'', CHR ''S''} \<and> d \<in> {CHR ''t'', CHR ''T''})"

text \<open>An aggregate without a cell, as \<open>DataFrame.empty\<close> has it: an axis of length zero.\<close>

definition pivot_empty :: "pivot \<Rightarrow> bool" where
  "pivot_empty t = (p_index t = [] \<or> p_columns t = [])"

subsection \<open>An example\<close>

text \<open>
  The end-to-end example of the specification, with one event more: an allow-listed
  organization, a null name and a material without a category.
\<close>

definition example_events :: "event list" where
  "example_events =
     [\<lparr>Material = Some ''Widget [12]'', Name = Some ''Prod'', Organization = Some ''Acme'',
       Date_of_entry = Some \<lparr>ts_year = 2024, ts_month = 3, ts_day = 1\<rparr>\<rparr>,
      \<lparr>Material = Some ''Gadget [99]'', Name = Some ''TestRun'', Organization = Some ''Acme'',
       Date_of_entry = Some \<lparr>ts_year = 2024, ts_month = 3, ts_day = 15\<rparr>\<rparr>,
      \<lparr>Material = Some ''Cable'', Name = None,
       Organization = Some ''PHOENIX CONTACT E-Mobility GmbH'',
       Date_of_entry = Some \<lparr>ts_year = 2024, ts_month = 1, ts_day = 15\<rparr>\<rparr>]"

definition example_clusters :: "cluster_row list" where
  "example_clusters = [\<lparr>PC_key = Some 12, SMC = Some ''ClusterA''\<rparr>]"

definition example_df1 :: "event_pc list" where
  "example_df1 =
     [\<lparr>Material = Some ''Widget [12]'', Name = Some ''Prod'', Organization = Some ''Acme'',
       Date_of_entry = Some \<lparr>ts_year = 2024, ts_month = 3, ts_day = 1\<rparr>, PC = Some 12\<rparr>,
      \<lparr>Material = Some ''Gadget [99]'', Name = Some ''TestRun'', Organization = Some ''Acme'',
       Date_of_entry = Some \<lparr>ts_year = 2024, ts_month = 3, ts_day = 15\<rparr>, PC = Some 99\<rparr>,
      \<lparr>Material = Some ''Cable'', Name = None,
       Organization = Some ''PHOENIX CONTACT E-Mobility GmbH'',
       Date_of_entry = Some \<lparr>ts_year = 2024, ts_month = 1, ts_day = 15\<rparr>, PC = None\<rparr>]"

definition example_merged :: "merged list" where
  "example_merged =
     [\<lparr>Material = Some ''Widget [12]'', Name = Some ''Prod'', Organization = Some ''Acme'',
       Date_of_entry = Some \<lparr>ts_year = 2024, ts_month = 3, ts_day = 1\<rparr>,
       PC = Some 12, Groups = Some ''ClusterA''\<rparr>,
      \<lparr>Material = Some ''Cable'', Name = None,
       Organization = Some ''PHOENIX CONTACT E-Mobility GmbH'',
       Date_of_entry = Some \<lparr>ts_year = 2024, ts_month = 1, ts_day = 15\<rparr>,
       PC = None, Groups = None\<rparr>]"

definition example_df :: "enriched list" where
  "example_df =
     [\<lparr>Material = Some ''Widget [12]'', Name = Some ''Prod'', Organization = Some ''Acme'',
       Date_of_entry = Some \<lparr>ts_year = 2024, ts_month = 3, ts_day = 1\<rparr>,
       PC = Some 12, Groups = Some ''ClusterA'',
       Organization1 = ''Phoenix Contact - GPN'', month = IntMonth 3,
       month_name = Some ''March''\<rparr>,
      \<lparr>Material = Some ''Cable'', Name = None,
       Organization = Some ''PHOENIX CONTACT E-Mobility GmbH'',
       Date_of_entry = Some \<lparr>ts_year = 2024, ts_month = 1, ts_day = 15\<rparr>,
       PC = None, Groups = None,
       Organization1 = ''PHOENIX CONTACT E-Mobility GmbH'', month = IntMonth 1,
       month_name = Some ''January''\<rparr>]"

text \<open>
  An event without a date, alone and beside a dated one.
\<close>

definition example_undated :: "event list" where
  "example_undated =
     [\<lparr>Material = Some ''Widget [12]'', Name = Some ''Prod'', Organization = Some ''Acme'',
       Date_of_entry = None\<rparr>]"

definition example_undated_df :: "enriched list" where
  "example_undated_df =
     [\<lparr>Material = Some ''Widget [12]'', Name = Some ''Prod'', Organization = Some ''Acme'',
       Date_of_entry = None, PC = Some 12, Groups = Some ''ClusterA'',
       Organization1 = ''Phoenix Contact - GPN'', month = NaN, month_name = None\<rparr>]"

definition example_mixed :: "event list" where
  "example_mixed =
     [\<lparr>Material = Some ''Widget [12]'', Name = Some ''Prod'', Organization = Some ''Acme'',
       Date_of_entry = Some \<lparr>ts_year = 2024, ts_month = 3, ts_day = 1\<rparr>\<rparr>,
      \<lparr>Material = Some ''Cable'', Name = None, Organization = Some ''Acme'',
       Date_of_entry = None\<rparr>]"

text \<open>
  Two events of the fallback organization in March, one of them without a category and
  so without a cluster.
\<close>

definition example_unclustered :: "event list" where
  "example_unclustered =
     [\<lparr>Material = Some ''Widget [12]'', Name = Some ''Prod'', Organization = Some ''Acme'',
       Date_of_entry = Some \<lparr>ts_year = 2024, ts_month = 3, ts_day = 1\<rparr>\<rparr>,
      \<lparr>Material = Some ''Cable'', Name = None, Organization = Some ''Acme'',
       Date_of_entry = Some \<lparr>ts_year = 2024, ts_month = 3, ts_day = 15\<rparr>\<rparr>]"

definition example_unclustered_df :: "enriched list" where
  "example_unclustered_df =
     [\<lparr>Material = Some ''Widget [12]'', Name = Some ''Prod'', Organization = Some ''Acme'',
       Date_of_entry = Some \<lparr>ts_year = 2024, ts_month = 3, ts_day = 1\<rparr>,
       PC = Some 12, Groups = Some ''ClusterA'',
       Organization1 = ''Phoenix Contact - GPN'', month = IntMonth 3,
       month_name = Some ''March''\<rparr>,
      \<lparr>Material = Some ''Cable'', Name = None, Organization = Some ''Acme'',
       Date_of_entry = Some \<lparr>ts_year = 2024, ts_month = 3, ts_day = 15\<rparr>,
       PC = None, Groups = None,
       Organization1 = ''Phoenix Contact - GPN'', month = IntMonth 3,
       month_name = Some ''March''\<rparr>]"

text \<open>
  A mapping with two rows whose code is blank, and the frame the example events give
  with it.
\<close>

definition example_blank_clusters :: "cluster_row list" where
  "example_blank_clusters =
     [\<lparr>PC_key = Some 12, SMC = Some ''ClusterA''\<rparr>,
      \<lparr>PC_key = None, SMC = Some ''Legacy''\<rparr>,
      \<lparr>PC_key = None, SMC = Some ''Misc''\<rparr>]"

definition example_blank_df :: "enriched list" where
  "example_blank_df =
     [\<lparr>Material = Some ''Widget [12]'', Name = Some ''Prod'', Organization = Some ''Acme'',
       Date_of_entry = Some \<lparr>ts_year = 2024, ts_month = 3, ts_day = 1\<rparr>,
       PC = Some 12, Groups = Some ''ClusterA'',
       Organization1 = ''Phoenix Contact - GPN'', month = IntMonth 3,
       month_name = Some ''March''\<rparr>,
      \<lparr>Material = Some ''Cable'', Name = None,
       Organization = Some ''PHOENIX CONTACT E-Mobility GmbH'',
       Date_of_entry = Some \<lparr>ts_year = 2024, ts_month = 1, ts_day = 15\<rparr>,
       PC = None, Groups = Some ''Legacy'',
       Organization1 = ''PHOENIX CONTACT E-Mobility GmbH'', month = IntMonth 1,
       month_name = Some ''January''\<rparr>,
      \<lparr>Material = Some ''Cable'', Name = None,
       Organization = Some ''PHOENIX CONTACT E-Mobility GmbH'',
       Date_of_entry = Some \<lparr>ts_year = 2024, ts_month = 1, ts_day = 15\<rparr>,
       PC = None, Groups = Some ''Misc'',
       Organization1 = ''PHOENIX CONTACT E-Mobility GmbH'', month = IntMonth 1,
       month_name = Some ''January''\<rparr>]"

section \<open>Properties\<close>

subsection \<open>Columns and rows\<close>

lemma traverse_Inr:
  "traverse f xs = Inr ys \<Longrightarrow>
     length ys = length xs \<and> (\<forall>i<length xs. f (xs ! i) = Inr (ys ! i))"
proof (induction xs arbitrary: ys)
  case Nil
  then show ?case by simp
next
  case (Cons x xs)
  from Cons.prems obtain y ys' where y: "f x = Inr y" and t: "traverse f xs = Inr ys'"
    and ys: "ys = y # ys'"
    by (auto split: sum.splits)
  have "length ys' = length xs \<and> (\<forall>i<length xs. f (xs ! i) = Inr (ys' ! i))"
    using Cons.IH [OF t] .
  then show ?case using y ys by (auto simp: less_Suc_eq_0_disj)
qed

lemma add_columns_rows:
  assumes "add_columns df = Inr out"
  shows "length out = length df"
    and "i < length df \<Longrightarrow>
      \<exists>n. month_name_of (dt_month (map Date_of_entry df) ! i) = Inr n
        \<and> out ! i = with_columns (df ! i) (dt_month (map Date_of_entry df) ! i) n"
proof -
  let ?ms = "dt_month (map Date_of_entry df)"
  from assms obtain names where t: "traverse month_name_of ?ms = Inr names"
    and out: "out = map (\<lambda>(r, m, n). with_columns r m n) (zip df (zip ?ms names))"
    by (auto simp: add_columns_def Let_def split: sum.splits)
  have lm: "length ?ms = length df" by (simp add: dt_month_def)
  have ln: "length names = length df" using traverse_Inr [OF t] lm by simp
  show "length out = length df" using out lm ln by simp
  show "\<exists>n. month_name_of (?ms ! i) = Inr n \<and> out ! i = with_columns (df ! i) (?ms ! i) n"
    if "i < length df"
    using that traverse_Inr [OF t] lm ln out by simp
qed

lemma month_order_eq:
  "month_order =
     [''January'', ''February'', ''March'', ''April'', ''May'', ''June'', ''July'',
      ''August'', ''September'', ''October'', ''November'', ''December'']"
  by (simp add: month_order_def calendar_month_name_def)

subsection \<open>The example, evaluated\<close>

lemma bit_length_12: "bit_length 12 = 4"
  by (simp add: bit_length.simps)

lemma bit_length_99: "bit_length 99 = 7"
  by (simp add: bit_length.simps)

lemma purchasing_category_12: "purchasing_category (Some ''Widget [12]'') = Inr (Some 12)"
  by (simp add: purchasing_category_def isdigit_def int_of_digits_def digit_val_def
      float64_of_nat_def bit_length_12 astype_Int64_def)

lemma purchasing_category_99: "purchasing_category (Some ''Gadget [99]'') = Inr (Some 99)"
  by (simp add: purchasing_category_def isdigit_def int_of_digits_def digit_val_def
      float64_of_nat_def bit_length_99 astype_Int64_def)

lemma purchasing_category_Cable: "purchasing_category (Some ''Cable'') = Inr None"
  by (simp add: purchasing_category_def)

lemma is_test_Prod: "\<not> is_test (Some ''Prod'')"
  by (simp add: is_test_def str_lower_def lower_char_def)

lemma is_test_TestRun: "is_test (Some ''TestRun'')"
  by code_simp

lemma is_test_None: "\<not> is_test None"
  by (simp add: is_test_def)

lemma traverse_add_PC_example: "traverse add_PC example_events = Inr example_df1"
  by (simp add: example_events_def example_df1_def add_PC_def purchasing_category_12
      purchasing_category_99 purchasing_category_Cable)

lemma exclude_tests_example:
  "exclude_tests example_df1 = [example_df1 ! 0, example_df1 ! 2]"
  by (simp add: example_df1_def exclude_tests_def is_test_Prod is_test_TestRun is_test_None)

lemma merge_left_example:
  "merge_left (exclude_tests example_df1) (drop_duplicates example_clusters) = example_merged"
  by (simp add: exclude_tests_example)
    (simp add: example_df1_def example_clusters_def example_merged_def merge_left_def
      with_Groups_def)

lemma add_columns_example: "add_columns example_merged = Inr example_df"
  by (simp add: add_columns_def example_merged_def example_df_def dt_month_def
      month_name_of_def calendar_month_name_def with_columns_def Organization1_of_def
      keep_values_def Categorical_def month_order_eq)

lemma transform_example: "transform example_events example_clusters = Inr example_df"
  by (simp add: transform_def traverse_add_PC_example merge_left_example add_columns_example)

subsection \<open>The organization group\<close>

text \<open>
  C7. For every record of the frame, the normalized organization group is the
  organization name itself when that name is one of the two allow-listed strings, and the
  constant "Phoenix Contact - GPN" for every other name, a null name included.
\<close>

theorem organization_normalization:
  assumes "add_columns df = Inr out"
  shows "length out = length df \<and>
    (\<forall>i<length df.
       Organization1 (out ! i) =
         (case Organization (df ! i) of
            None \<Rightarrow> ''Phoenix Contact - GPN''
          | Some s \<Rightarrow>
              if s = ''PHOENIX CONTACT E-Mobility GmbH''
                 \<or> s = ''Phoenix Contact GmbH & Co. KG - Werkzeugbau''
              then s else ''Phoenix Contact - GPN''))"
proof (intro conjI allI impI)
  show "length out = length df" using add_columns_rows(1) [OF assms] .
next
  fix i assume "i < length df"
  then obtain n where
    "out ! i = with_columns (df ! i) (dt_month (map Date_of_entry df) ! i) n"
    using add_columns_rows(2) [OF assms] by blast
  then show "Organization1 (out ! i) =
         (case Organization (df ! i) of
            None \<Rightarrow> ''Phoenix Contact - GPN''
          | Some s \<Rightarrow>
              if s = ''PHOENIX CONTACT E-Mobility GmbH''
                 \<or> s = ''Phoenix Contact GmbH & Co. KG - Werkzeugbau''
              then s else ''Phoenix Contact - GPN'')"
    by (simp add: with_columns_def Organization1_of_def keep_values_def split: option.splits)
qed

theorem organization_normalization_witness:
  "add_columns example_merged = Inr example_df
   \<and> Organization (example_merged ! 0) = Some ''Acme''
   \<and> Organization1 (example_df ! 0) = ''Phoenix Contact - GPN''
   \<and> Organization (example_merged ! 1) = Some ''PHOENIX CONTACT E-Mobility GmbH''
   \<and> Organization1 (example_df ! 1) = ''PHOENIX CONTACT E-Mobility GmbH''"
proof -
  have "\<forall>i<length example_merged.
       Organization1 (example_df ! i) =
         (case Organization (example_merged ! i) of
            None \<Rightarrow> ''Phoenix Contact - GPN''
          | Some s \<Rightarrow>
              if s = ''PHOENIX CONTACT E-Mobility GmbH''
                 \<or> s = ''Phoenix Contact GmbH & Co. KG - Werkzeugbau''
              then s else ''Phoenix Contact - GPN'')"
    using organization_normalization [OF add_columns_example] by simp
  then have "Organization1 (example_df ! 0) = ''Phoenix Contact - GPN''"
    and "Organization1 (example_df ! 1) = ''PHOENIX CONTACT E-Mobility GmbH''"
    by (simp_all add: example_merged_def)
  then show ?thesis using add_columns_example by (simp add: example_merged_def)
qed

subsection \<open>The purchasing category\<close>

lemma close_not_digit: "\<not> isdigit CHR '']''"
  by (simp add: isdigit_def)

lemma digits_then_close:
  "list_all isdigit ds \<Longrightarrow> takeWhile isdigit (ds @ CHR '']'' # post) = ds
     \<and> dropWhile isdigit (ds @ CHR '']'' # post) = CHR '']'' # post"
  by (induction ds) (simp_all add: close_not_digit)

lemma match_here_iff:
  "(takeWhile isdigit cs \<noteq> [] \<and> (case dropWhile isdigit cs of [] \<Rightarrow> False | d # _ \<Rightarrow> d = CHR '']''))
     = (\<exists>ds post. cs = ds @ CHR '']'' # post \<and> ds \<noteq> [] \<and> list_all isdigit ds)"
  (is "?L = ?R")
proof
  assume l: ?L
  then obtain d rest where dr: "dropWhile isdigit cs = d # rest" and d: "d = CHR '']''"
    by (auto split: list.splits)
  have "cs = takeWhile isdigit cs @ CHR '']'' # rest"
    using dr d takeWhile_dropWhile_id [of isdigit cs] by simp
  moreover have "list_all isdigit (takeWhile isdigit cs)"
    by (simp add: list_all_iff) (meson set_takeWhileD)
  ultimately show ?R using l by blast
next
  assume ?R
  then obtain ds post where "cs = ds @ CHR '']'' # post" "ds \<noteq> []" "list_all isdigit ds"
    by blast
  then show ?L using digits_then_close [of ds post] by simp
qed

lemma str_extract_Some:
  "str_extract s = Some ds \<Longrightarrow>
     \<exists>pre post. bracketed_run s pre ds post
       \<and> (\<forall>pre' ds' post'. bracketed_run s pre' ds' post' \<longrightarrow> length pre \<le> length pre')"
proof (induction s)
  case Nil
  then show ?case by simp
next
  case (Cons c cs)
  show ?case
  proof (cases "c = CHR ''['' \<and> takeWhile isdigit cs \<noteq> []
         \<and> (case dropWhile isdigit cs of [] \<Rightarrow> False | d # _ \<Rightarrow> d = CHR '']'')")
    case True
    then have ds: "ds = takeWhile isdigit cs" using Cons.prems by simp
    from True obtain ds0 post where "cs = ds0 @ CHR '']'' # post" "ds0 \<noteq> []" "list_all isdigit ds0"
      using match_here_iff [of cs] by blast
    then have "bracketed_run (c # cs) [] ds post"
      using True ds digits_then_close [of ds0 post] by (simp add: bracketed_run_def)
    then show ?thesis by (metis le0 list.size(3))
  next
    case False
    then have "str_extract cs = Some ds" using Cons.prems by auto
    then obtain pre post where b: "bracketed_run cs pre ds post"
      and m: "\<forall>pre' ds' post'. bracketed_run cs pre' ds' post' \<longrightarrow> length pre \<le> length pre'"
      using Cons.IH by blast
    have "bracketed_run (c # cs) (c # pre) ds post"
      using b by (simp add: bracketed_run_def)
    moreover have "length (c # pre) \<le> length pre'" if h: "bracketed_run (c # cs) pre' ds' post'" for pre' ds' post'
    proof (cases pre')
      case Nil
      then have "c = CHR ''['' \<and> cs = ds' @ CHR '']'' # post' \<and> ds' \<noteq> [] \<and> list_all isdigit ds'"
        using h by (simp add: bracketed_run_def)
      then have False using False match_here_iff [of cs] by blast
      then show ?thesis ..
    next
      case (Cons a p)
      then have "bracketed_run cs p ds' post'" using h by (simp add: bracketed_run_def)
      then show ?thesis using m Cons by auto
    qed
    ultimately show ?thesis by blast
  qed
qed

lemma str_extract_None:
  "str_extract s = None \<Longrightarrow> \<not> bracketed_run s pre ds post"
proof (induction s arbitrary: pre)
  case Nil
  then show ?case by (simp add: bracketed_run_def)
next
  case (Cons c cs)
  have no: "\<not> (c = CHR ''['' \<and> takeWhile isdigit cs \<noteq> []
         \<and> (case dropWhile isdigit cs of [] \<Rightarrow> False | d # _ \<Rightarrow> d = CHR '']''))"
    using Cons.prems by (auto split: if_splits)
  then have rest: "str_extract cs = None" using Cons.prems by auto
  show ?case
  proof (cases pre)
    case Nil
    show ?thesis
    proof
      assume "bracketed_run (c # cs) pre ds post"
      then have "c = CHR ''['' \<and> cs = ds @ CHR '']'' # post \<and> ds \<noteq> [] \<and> list_all isdigit ds"
        using Nil by (simp add: bracketed_run_def)
      then show False using no match_here_iff [of cs] by blast
    qed
  next
    case (Cons a p)
    then show ?thesis using Cons.IH [OF rest, of p] by (auto simp: bracketed_run_def)
  qed
qed

lemma bracketed_run_same_start:
  "bracketed_run s pre ds post \<Longrightarrow> bracketed_run s pre' ds' post' \<Longrightarrow> length pre = length pre'
     \<Longrightarrow> ds = ds'"
proof -
  assume a: "bracketed_run s pre ds post" and b: "bracketed_run s pre' ds' post'"
    and l: "length pre = length pre'"
  have "pre @ CHR ''['' # ds @ CHR '']'' # post = pre' @ CHR ''['' # ds' @ CHR '']'' # post'"
    using a b by (simp add: bracketed_run_def)
  then have "ds @ CHR '']'' # post = ds' @ CHR '']'' # post'" using l by simp
  then have "takeWhile isdigit (ds @ CHR '']'' # post) = takeWhile isdigit (ds' @ CHR '']'' # post')"
    by simp
  then show ?thesis
    using a b digits_then_close [of ds post] digits_then_close [of ds' post']
    by (simp add: bracketed_run_def)
qed

lemma str_extract_first:
  assumes "bracketed_run s pre ds post"
    and "\<forall>pre' ds' post'. bracketed_run s pre' ds' post' \<longrightarrow> length pre \<le> length pre'"
  shows "str_extract s = Some ds"
proof (cases "str_extract s")
  case None
  then show ?thesis using str_extract_None assms(1) by blast
next
  case (Some ds0)
  then obtain pre0 post0 where b: "bracketed_run s pre0 ds0 post0"
    and m: "\<forall>pre' ds' post'. bracketed_run s pre' ds' post' \<longrightarrow> length pre0 \<le> length pre'"
    using str_extract_Some by blast
  have "length pre0 = length pre" using assms b m by (meson le_antisym)
  then show ?thesis using bracketed_run_same_start [OF b assms(1)] Some by simp
qed

lemma bit_length_le: "n < 2 ^ k \<Longrightarrow> bit_length n \<le> k"
proof (induction k arbitrary: n)
  case 0
  then show ?case by (simp add: bit_length.simps)
next
  case (Suc k)
  have "n div 2 < 2 ^ k" using Suc.prems by auto
  then have "bit_length (n div 2) \<le> k" by (rule Suc.IH)
  then show ?case by (subst bit_length.simps) simp
qed

lemma two_53_less: "(2::nat) ^ 53 < 2 ^ 1024"
  by (rule power_strict_increasing) simp_all

lemma float64_exact_below: "n < 2 ^ 53 \<Longrightarrow> float64_of_nat n = Some n"
proof -
  assume n: "n < 2 ^ 53"
  then have e: "bit_length n - 53 = 0" using bit_length_le [of n 53] by simp
  have "n < (2::nat) ^ 1024"
    using n two_53_less by (rule less_trans)
  then show ?thesis unfolding float64_of_nat_def Let_def e by simp
qed

lemma bit_length_two_53: "bit_length 9007199254740992 = 54"
  by (simp add: bit_length.simps)

lemma float64_exact_two_53: "float64_of_nat 9007199254740992 = Some 9007199254740992"
  by (simp add: float64_of_nat_def bit_length_two_53)

lemma float64_exact: "n \<le> 2 ^ 53 \<Longrightarrow> float64_of_nat n = Some n"
proof (cases "n < 2 ^ 53")
  case True
  then show ?thesis by (rule float64_exact_below)
next
  case False
  moreover assume "n \<le> 2 ^ 53"
  ultimately have "n = 9007199254740992" by simp
  then show ?thesis by (simp only: float64_exact_two_53)
qed

lemma astype_Int64_exact: "n \<le> 2 ^ 53 \<Longrightarrow> astype_Int64 (float64_of_nat n) = Inr (int n)"
proof -
  assume n: "n \<le> 2 ^ 53"
  have "(2::nat) ^ 53 < 2 ^ 63" by (rule power_strict_increasing) simp_all
  with n have "n < 2 ^ 63" by (rule le_less_trans)
  then show ?thesis using float64_exact [OF n] by (simp add: astype_Int64_def)
qed

text \<open>
  C1. A null material, and a material without a bracketed run of digits, give a null
  category code. When the material has such a run, the first one (none starts further
  left) is the code, read as a decimal integer, as long as that integer is at most
  \<open>2 ^ 53\<close>: the script converts through float64, which holds every integer up to there.
\<close>

theorem category_extraction:
  "purchasing_category None = Inr None
   \<and> ((\<forall>pre ds post. \<not> bracketed_run s pre ds post)
        \<longrightarrow> purchasing_category (Some s) = Inr None)
   \<and> (bracketed_run s pre ds post
        \<and> (\<forall>pre' ds' post'. bracketed_run s pre' ds' post' \<longrightarrow> length pre \<le> length pre')
        \<and> int_of_digits ds \<le> 2 ^ 53
        \<longrightarrow> purchasing_category (Some s) = Inr (Some (int (int_of_digits ds))))"
proof (intro conjI impI)
  show "purchasing_category None = Inr None" by (simp add: purchasing_category_def)
next
  assume no: "\<forall>pre ds post. \<not> bracketed_run s pre ds post"
  have "str_extract s = None"
  proof (cases "str_extract s")
    case None
    then show ?thesis .
  next
    case (Some ds)
    then show ?thesis using str_extract_Some [of s ds] no by blast
  qed
  then show "purchasing_category (Some s) = Inr None" by (simp add: purchasing_category_def)
next
  assume h: "bracketed_run s pre ds post
        \<and> (\<forall>pre' ds' post'. bracketed_run s pre' ds' post' \<longrightarrow> length pre \<le> length pre')
        \<and> int_of_digits ds \<le> 2 ^ 53"
  then have "str_extract s = Some ds" using str_extract_first by blast
  then show "purchasing_category (Some s) = Inr (Some (int (int_of_digits ds)))"
    using h astype_Int64_exact [of "int_of_digits ds"] by (simp add: purchasing_category_def)
qed

theorem category_extraction_witness:
  "bracketed_run ''[12] and [34]'' [] ''12'' '' and [34]''
   \<and> purchasing_category (Some ''[12] and [34]'') = Inr (Some 12)
   \<and> purchasing_category (Some ''Cable'') = Inr None"
proof -
  have b: "bracketed_run ''[12] and [34]'' [] ''12'' '' and [34]''"
    by (simp add: bracketed_run_def isdigit_def)
  have m: "\<forall>pre' ds' post'. bracketed_run ''[12] and [34]'' pre' ds' post'
      \<longrightarrow> length ([] :: string) \<le> length pre'"
    by simp
  have v: "int_of_digits ''12'' = 12" by (simp add: int_of_digits_def digit_val_def)
  have n: "\<forall>pre ds post. \<not> bracketed_run ''Cable'' pre ds post"
    using str_extract_None [of "''Cable''"] by simp
  have "purchasing_category (Some ''[12] and [34]'') = Inr (Some 12)"
    using category_extraction [of "''[12] and [34]''" "[]" "''12''" "'' and [34]''"] b m v
    by simp
  moreover have "purchasing_category (Some ''Cable'') = Inr None"
    using category_extraction [of "''Cable''"] n by blast
  ultimately show ?thesis using b by simp
qed

lemma bit_length_counterexample: "bit_length 9007199254740993 = 54"
  by (simp add: bit_length.simps)

theorem category_extraction_counterexample:
  "bracketed_run ''[9007199254740993]'' [] ''9007199254740993'' []
   \<and> int_of_digits ''9007199254740993'' = 9007199254740993
   \<and> purchasing_category (Some ''[9007199254740993]'') = Inr (Some 9007199254740992)
   \<and> purchasing_category (Some ''[9007199254740993]'')
       \<noteq> Inr (Some (int (int_of_digits ''9007199254740993'')))"
proof -
  have b: "bracketed_run ''[9007199254740993]'' [] ''9007199254740993'' []"
    by (simp add: bracketed_run_def isdigit_def)
  have v: "int_of_digits ''9007199254740993'' = 9007199254740993"
    by (simp add: int_of_digits_def digit_val_def)
  have e: "str_extract ''[9007199254740993]'' = Some ''9007199254740993''"
    using str_extract_first [OF b] by simp
  have f: "float64_of_nat 9007199254740993 = Some 9007199254740992"
    by (simp add: float64_of_nat_def bit_length_counterexample)
  have p: "purchasing_category (Some ''[9007199254740993]'') = Inr (Some 9007199254740992)"
    by (simp only: purchasing_category_def option.case e v f) (simp add: astype_Int64_def)
  show ?thesis using b v p by simp
qed

subsection \<open>The test records\<close>

lemma lower_char_eq_iff:
  assumes "97 \<le> (of_char l :: nat)" "(of_char l :: nat) \<le> 122"
  shows "lower_char c = l \<longleftrightarrow> c = l \<or> (of_char c :: nat) + 32 = of_char l"
proof -
  have inj: "\<And>a b :: char. (of_char a :: nat) = of_char b \<longleftrightarrow> a = b" by simp
  show ?thesis
  proof (cases "(65 \<le> (of_char c :: nat) \<and> (of_char c :: nat) \<le> 90)
      \<or> (192 \<le> (of_char c :: nat) \<and> (of_char c :: nat) \<le> 222 \<and> (of_char c :: nat) \<noteq> 215)")
    case True
    then have lc: "lower_char c = char_of ((of_char c :: nat) + 32)"
      by (simp add: lower_char_def Let_def)
    have "(of_char (char_of ((of_char c :: nat) + 32)) :: nat) = of_char c + 32"
    proof -
      have "(of_char c :: nat) + 32 < 256" using True by arith
      then show ?thesis by (simp add: of_char_of)
    qed
    then have "lower_char c = l \<longleftrightarrow> (of_char c :: nat) + 32 = of_char l"
      using lc inj [of "lower_char c" l] by simp
    moreover have "c \<noteq> l" using True assms by auto
    ultimately show ?thesis by simp
  next
    case False
    then have "lower_char c = c" by (auto simp: lower_char_def Let_def)
    moreover have "(of_char c :: nat) + 32 \<noteq> of_char l" using False assms by auto
    ultimately show ?thesis by simp
  qed
qed

lemma lower_t: "lower_char c = CHR ''t'' \<longleftrightarrow> c \<in> {CHR ''t'', CHR ''T''}"
proof -
  have "(of_char c :: nat) + 32 = of_char CHR ''t'' \<longleftrightarrow> (of_char c :: nat) = of_char CHR ''T''" by auto
  then have "(of_char c :: nat) + 32 = of_char CHR ''t'' \<longleftrightarrow> c = CHR ''T''"
    by (simp only: of_char_eq_iff)
  then show ?thesis using lower_char_eq_iff [of "CHR ''t''" c] by auto
qed

lemma lower_e: "lower_char c = CHR ''e'' \<longleftrightarrow> c \<in> {CHR ''e'', CHR ''E''}"
proof -
  have "(of_char c :: nat) + 32 = of_char CHR ''e'' \<longleftrightarrow> (of_char c :: nat) = of_char CHR ''E''" by auto
  then have "(of_char c :: nat) + 32 = of_char CHR ''e'' \<longleftrightarrow> c = CHR ''E''"
    by (simp only: of_char_eq_iff)
  then show ?thesis using lower_char_eq_iff [of "CHR ''e''" c] by auto
qed

lemma lower_s: "lower_char c = CHR ''s'' \<longleftrightarrow> c \<in> {CHR ''s'', CHR ''S''}"
proof -
  have "(of_char c :: nat) + 32 = of_char CHR ''s'' \<longleftrightarrow> (of_char c :: nat) = of_char CHR ''S''" by auto
  then have "(of_char c :: nat) + 32 = of_char CHR ''s'' \<longleftrightarrow> c = CHR ''S''"
    by (simp only: of_char_eq_iff)
  then show ?thesis using lower_char_eq_iff [of "CHR ''s''" c] by auto
qed

lemma str_contains_sublist: "str_contains pat s = sublist pat s"
  by (induction s) (auto simp: sublist_Cons_right)

lemma lower_word_test:
  "map lower_char w = ''test'' \<longleftrightarrow>
     (\<exists>a b c d. w = [a, b, c, d] \<and> a \<in> {CHR ''t'', CHR ''T''} \<and> b \<in> {CHR ''e'', CHR ''E''}
        \<and> c \<in> {CHR ''s'', CHR ''S''} \<and> d \<in> {CHR ''t'', CHR ''T''})"
proof -
  have "map lower_char w = ''test'' \<longleftrightarrow>
     (\<exists>a b c d. w = [a, b, c, d] \<and> lower_char a = CHR ''t'' \<and> lower_char b = CHR ''e''
        \<and> lower_char c = CHR ''s'' \<and> lower_char d = CHR ''t'')"
    by (auto simp: map_eq_Cons_conv)
  then show ?thesis by (simp only: lower_t lower_e lower_s)
qed

lemma sublist_map_iff:
  "sublist w' (map f s) \<longleftrightarrow> (\<exists>pre w post. s = pre @ w @ post \<and> map f w = w')"
proof
  assume "sublist w' (map f s)"
  then obtain ps ss where "map f s = ps @ (w' @ ss)"
    unfolding sublist_def by blast
  then obtain pre r where s: "s = pre @ r" and r: "w' @ ss = map f r"
    unfolding map_eq_append_conv by blast
  from r obtain w post where "r = w @ post" "w' = map f w"
    unfolding append_eq_map_conv by blast
  then show "\<exists>pre w post. s = pre @ w @ post \<and> map f w = w'"
    using s by blast
next
  assume "\<exists>pre w post. s = pre @ w @ post \<and> map f w = w'"
  then obtain pre w post where "s = pre @ w @ post" "map f w = w'" by blast
  then have "map f s = map f pre @ w' @ map f post" by simp
  then show "sublist w' (map f s)" unfolding sublist_def by blast
qed

lemma is_test_any_case: "is_test (Some s) = any_case_test s"
proof -
  have "is_test (Some s) \<longleftrightarrow> (\<exists>pre w post. s = pre @ w @ post \<and> map lower_char w = ''test'')"
    by (simp only: is_test_def option.case str_lower_def str_contains_sublist sublist_map_iff)
  also have "\<dots> \<longleftrightarrow> (\<exists>pre w post. s = pre @ w @ post \<and>
     (\<exists>a b c d. w = [a, b, c, d] \<and> a \<in> {CHR ''t'', CHR ''T''} \<and> b \<in> {CHR ''e'', CHR ''E''}
        \<and> c \<in> {CHR ''s'', CHR ''S''} \<and> d \<in> {CHR ''t'', CHR ''T''}))"
    by (simp only: lower_word_test)
  also have "\<dots> \<longleftrightarrow> any_case_test s"
    unfolding any_case_test_def by blast
  finally show ?thesis .
qed

text \<open>
  C8. The rows line 32 keeps are, in their order, the rows whose name is null and the
  rows whose name does not hold "test" in any letter case: every row whose name holds it
  is dropped, every row with a null name stays.
\<close>

theorem test_record_exclusion:
  "exclude_tests df =
     filter (\<lambda>r. case Name r of None \<Rightarrow> True | Some s \<Rightarrow> \<not> any_case_test s) df"
proof -
  have "(\<not> is_test n) = (case n of None \<Rightarrow> True | Some s \<Rightarrow> \<not> any_case_test s)" for n
  proof (cases n)
    case None
    then show ?thesis by (simp add: is_test_def)
  next
    case (Some s)
    then show ?thesis by (simp add: is_test_any_case)
  qed
  then show ?thesis by (simp add: exclude_tests_def)
qed

theorem test_record_exclusion_witness:
  "any_case_test ''TestRun'' \<and> Name (example_df1 ! 2) = None
   \<and> exclude_tests example_df1 = [example_df1 ! 0, example_df1 ! 2]"
proof -
  have t: "any_case_test ''TestRun''" using is_test_TestRun unfolding is_test_any_case .
  have p: "\<not> any_case_test ''Prod''" using is_test_Prod unfolding is_test_any_case .
  have "exclude_tests example_df1 = [example_df1 ! 0, example_df1 ! 2]"
    using test_record_exclusion [of example_df1] t p by (simp add: example_df1_def)
  then show ?thesis using t by (simp add: example_df1_def)
qed

subsection \<open>The join\<close>

lemma filter_unique_key:
  "distinct (map key xs) \<Longrightarrow>
     filter (\<lambda>r. key r = k) xs = (case find (\<lambda>r. key r = k) xs of None \<Rightarrow> [] | Some r \<Rightarrow> [r])"
proof (induction xs)
  case Nil
  then show ?case by simp
next
  case (Cons x xs)
  show ?case
  proof (cases "key x = k")
    case True
    have "key x \<notin> key ` set xs" using Cons.prems by simp
    then have "\<forall>r\<in>set xs. key r \<noteq> k" using True by (metis imageI)
    then have "filter (\<lambda>r. key r = k) xs = []" by (simp add: filter_empty_conv)
    then show ?thesis using True by simp
  next
    case False
    then show ?thesis using Cons by simp
  qed
qed

lemma merge_left_unique:
  assumes "distinct (map PC_key right)"
  shows "merge_left left right =
     map (\<lambda>l. with_Groups l
       (case find (\<lambda>r. PC_key r = PC l) right of None \<Rightarrow> None | Some r \<Rightarrow> SMC r)) left"
proof -
  have "(case filter (\<lambda>r. PC_key r = PC l) right of
          [] \<Rightarrow> [with_Groups l None]
        | ms \<Rightarrow> map (\<lambda>r. with_Groups l (SMC r)) ms)
      = [with_Groups l (case find (\<lambda>r. PC_key r = PC l) right of None \<Rightarrow> None | Some r \<Rightarrow> SMC r)]"
    for l
    by (simp add: filter_unique_key [OF assms] split: option.splits)
  then show ?thesis by (simp add: merge_left_def concat_map_singleton)
qed

text \<open>
  C2. When no two rows of the deduplicated mapping have the same code, a blank code
  counting as a code like any other, the join of line 37 has as many rows as the event
  frame after the test records are dropped, and so has the transformed frame: row by row
  the event columns are kept, the cluster is the one of the mapping row with the same code
  (an event without a category has the cluster of the mapping row whose code is blank, when
  there is one), and it is null when no mapping row has that code.
\<close>

theorem join_row_count:
  assumes keys: "distinct (map PC_key (drop_duplicates clusters))"
    and df1: "traverse add_PC events = Inr df1"
    and df: "transform events clusters = Inr df"
  shows "length (merge_left (exclude_tests df1) (drop_duplicates clusters))
           = length (exclude_tests df1)
    \<and> length df = length (exclude_tests df1)
    \<and> (\<forall>i<length (exclude_tests df1).
          Material (df ! i) = Material (exclude_tests df1 ! i)
        \<and> Name (df ! i) = Name (exclude_tests df1 ! i)
        \<and> Organization (df ! i) = Organization (exclude_tests df1 ! i)
        \<and> Date_of_entry (df ! i) = Date_of_entry (exclude_tests df1 ! i)
        \<and> PC (df ! i) = PC (exclude_tests df1 ! i)
        \<and> Groups (df ! i) =
            (case find (\<lambda>r. PC_key r = PC (exclude_tests df1 ! i)) (drop_duplicates clusters) of
               None \<Rightarrow> None
             | Some r \<Rightarrow> SMC r)
        \<and> ((\<forall>r\<in>set (drop_duplicates clusters). PC_key r \<noteq> PC (exclude_tests df1 ! i))
             \<longrightarrow> Groups (df ! i) = None))"
proof -
  let ?left = "exclude_tests df1" and ?right = "drop_duplicates clusters"
  let ?g = "\<lambda>l. case find (\<lambda>r. PC_key r = PC l) ?right of None \<Rightarrow> None | Some r \<Rightarrow> SMC r"
  have m: "merge_left ?left ?right = map (\<lambda>l. with_Groups l (?g l)) ?left"
    using merge_left_unique [OF keys] .
  have a: "add_columns (merge_left ?left ?right) = Inr df"
    using df df1 by (simp add: transform_def)
  have lm: "length (merge_left ?left ?right) = length ?left" by (simp add: m)
  have ld: "length df = length ?left" using add_columns_rows(1) [OF a] lm by simp
  have rows: "Material (df ! i) = Material (?left ! i)
        \<and> Name (df ! i) = Name (?left ! i)
        \<and> Organization (df ! i) = Organization (?left ! i)
        \<and> Date_of_entry (df ! i) = Date_of_entry (?left ! i)
        \<and> PC (df ! i) = PC (?left ! i)
        \<and> Groups (df ! i) = ?g (?left ! i)
        \<and> ((\<forall>r\<in>set ?right. PC_key r \<noteq> PC (?left ! i)) \<longrightarrow> Groups (df ! i) = None)"
    if i: "i < length ?left" for i
  proof -
    from i lm obtain n mv where "df ! i = with_columns (merge_left ?left ?right ! i) mv n"
      using add_columns_rows(2) [OF a, of i] by auto
    then have r: "df ! i = with_columns (with_Groups (?left ! i) (?g (?left ! i))) mv n"
      using i by (simp add: m)
    have "?g (?left ! i) = None" if "\<forall>r\<in>set ?right. PC_key r \<noteq> PC (?left ! i)"
    proof -
      have "find (\<lambda>r. PC_key r = PC (?left ! i)) ?right = None"
        using that by (simp add: find_None_iff)
      then show ?thesis by simp
    qed
    then show ?thesis using r by (simp add: with_columns_def with_Groups_def)
  qed
  show ?thesis using lm ld rows by blast
qed


theorem join_row_count_witness:
  "distinct (map PC_key (drop_duplicates example_clusters))
   \<and> traverse add_PC example_events = Inr example_df1
   \<and> transform example_events example_clusters = Inr example_df
   \<and> length (exclude_tests example_df1) = 2
   \<and> length example_df = 2
   \<and> PC (example_df ! 0) = Some 12 \<and> Groups (example_df ! 0) = Some ''ClusterA''
   \<and> PC (example_df ! 1) = None \<and> Groups (example_df ! 1) = None"
proof -
  have k: "distinct (map PC_key (drop_duplicates example_clusters))"
    by (simp add: example_clusters_def)
  have l: "length (exclude_tests example_df1) = 2" by (simp add: exclude_tests_example)
  have "length example_df = length (exclude_tests example_df1)"
    using join_row_count [OF k traverse_add_PC_example transform_example] by blast
  then show ?thesis
    using k l traverse_add_PC_example transform_example by (simp add: example_df_def)
qed

text \<open>
  With unique codes only among the rows that have one, the count is not kept: two mapping
  rows with a blank code and different clusters are each joined to every event without a
  category.
\<close>

lemma drop_duplicates_blank: "drop_duplicates example_blank_clusters = example_blank_clusters"
  by (simp add: example_blank_clusters_def)

lemma merge_left_blank:
  "merge_left (exclude_tests example_df1) example_blank_clusters =
     [with_Groups (example_df1 ! 0) (Some ''ClusterA''),
      with_Groups (example_df1 ! 2) (Some ''Legacy''),
      with_Groups (example_df1 ! 2) (Some ''Misc'')]"
  by (simp add: exclude_tests_example)
    (simp add: example_df1_def example_blank_clusters_def merge_left_def)

lemma transform_blank: "transform example_events example_blank_clusters = Inr example_blank_df"
  by (simp add: transform_def traverse_add_PC_example drop_duplicates_blank merge_left_blank)
    (simp add: example_df1_def with_Groups_def add_columns_def dt_month_def
      month_name_of_def calendar_month_name_def with_columns_def Organization1_of_def
      keep_values_def Categorical_def month_order_eq example_blank_df_def)

theorem join_row_count_counterexample:
  "drop_duplicates example_blank_clusters = example_blank_clusters
   \<and> distinct (List.map_filter PC_key (drop_duplicates example_blank_clusters))
   \<and> traverse add_PC example_events = Inr example_df1
   \<and> length (exclude_tests example_df1) = 2
   \<and> length (merge_left (exclude_tests example_df1) (drop_duplicates example_blank_clusters)) = 3
   \<and> transform example_events example_blank_clusters = Inr example_blank_df
   \<and> length example_blank_df = 3
   \<and> PC (example_blank_df ! 1) = None
   \<and> Groups (example_blank_df ! 1) = Some ''Legacy''
   \<and> Groups (example_blank_df ! 2) = Some ''Misc''"
proof -
  have d: "distinct (List.map_filter PC_key (drop_duplicates example_blank_clusters))"
    by (simp add: drop_duplicates_blank)
      (simp add: example_blank_clusters_def List.map_filter_simps)
  have l: "length (exclude_tests example_df1) = 2" by (simp add: exclude_tests_example)
  have m: "length (merge_left (exclude_tests example_df1)
      (drop_duplicates example_blank_clusters)) = 3"
    by (simp add: drop_duplicates_blank merge_left_blank)
  show ?thesis
    using d l m drop_duplicates_blank traverse_add_PC_example transform_blank
    by (simp add: example_blank_df_def)
qed

text \<open>
  A null key counts as a key of the mapping: an event without a category is matched by
  every mapping row whose code is null.
\<close>

lemma merge_left_null_keys:
  "map Groups (merge_left
     [\<lparr>Material = Some ''Cable'', Name = None, Organization = None, Date_of_entry = None,
       PC = None\<rparr>]
     [\<lparr>PC_key = None, SMC = Some ''ClusterA''\<rparr>, \<lparr>PC_key = None, SMC = Some ''ClusterB''\<rparr>])
   = [Some ''ClusterA'', Some ''ClusterB'']"
  by (simp add: merge_left_def with_Groups_def)

subsection \<open>The month name\<close>

lemma traverse_Inl:
  "\<exists>x\<in>set xs. f x = Inl e \<Longrightarrow> \<forall>x\<in>set xs. f x = Inl e \<or> (\<exists>y. f x = Inr y)
     \<Longrightarrow> traverse f xs = Inl e"
proof (induction xs)
  case Nil
  then show ?case by simp
next
  case (Cons x xs)
  show ?case
  proof (cases "f x")
    case (Inl e')
    then show ?thesis using Cons.prems(2) by auto
  next
    case (Inr y)
    then have "\<exists>x\<in>set xs. f x = Inl e" using Cons.prems(1) by auto
    then have "traverse f xs = Inl e" using Cons.IH Cons.prems(2) by simp
    then show ?thesis using Inr by simp
  qed
qed

text \<open>
  C4. The month name of line 52 is not derived for every record: as soon as the frame
  holds a null date next to a date, the month column is a float column, the lambda
  indexes \<open>calendar.month_name\<close> with a float and the script stops with TypeError.
\<close>

theorem month_name_mixed_dates:
  assumes "None \<in> set (map Date_of_entry df)"
    and "\<exists>t. Some t \<in> set (map Date_of_entry df)"
  shows "add_columns df = Inl TypeError"
proof -
  let ?f = "\<lambda>d. case d of None \<Rightarrow> NaN | Some t \<Rightarrow> FloatMonth (ts_month t)"
  have ms: "dt_month (map Date_of_entry df) = map ?f (map Date_of_entry df)"
    using assms(1) by (simp add: dt_month_def)
  from assms(2) obtain t where "Some t \<in> set (map Date_of_entry df)" by blast
  then have "FloatMonth (ts_month t) \<in> set (map ?f (map Date_of_entry df))"
    by (metis (mono_tags, lifting) imageI list.set_map option.simps(5))
  moreover have "month_name_of (FloatMonth (ts_month t)) = Inl TypeError"
    by (simp add: month_name_of_def)
  ultimately have 1: "\<exists>x\<in>set (map ?f (map Date_of_entry df)). month_name_of x = Inl TypeError"
    by blast
  have 2: "\<forall>x\<in>set (map ?f (map Date_of_entry df)).
      month_name_of x = Inl TypeError \<or> (\<exists>y. month_name_of x = Inr y)"
    by (auto simp: month_name_of_def split: option.splits)
  have "traverse month_name_of (dt_month (map Date_of_entry df)) = Inl TypeError"
    using traverse_Inl [OF 1 2] ms by simp
  then show ?thesis by (simp add: add_columns_def)
qed


theorem month_name_mixed_dates_witness:
  "transform example_mixed example_clusters = Inl TypeError"
proof -
  let ?merged = "[with_Groups \<lparr>Material = Some ''Widget [12]'', Name = Some ''Prod'',
         Organization = Some ''Acme'',
         Date_of_entry = Some \<lparr>ts_year = 2024, ts_month = 3, ts_day = 1\<rparr>, PC = Some 12\<rparr>
         (Some ''ClusterA''),
       with_Groups \<lparr>Material = Some ''Cable'', Name = None, Organization = Some ''Acme'',
         Date_of_entry = None, PC = None\<rparr> None]"
  have t: "transform example_mixed example_clusters = add_columns ?merged"
    by (simp del: One_nat_def add: transform_def example_mixed_def add_PC_def
        purchasing_category_12 purchasing_category_Cable exclude_tests_def is_test_Prod
        is_test_None example_clusters_def merge_left_def)
  have "add_columns ?merged = Inl TypeError"
    by (rule month_name_mixed_dates) (simp_all add: with_Groups_def)
  then show ?thesis using t by simp
qed

text \<open>
  Where no date is null the script gets past line 52: every record has the English name
  of the month of its date. Where every date is null it gets past too, and every month
  name is null.
\<close>

lemma traverse_total:
  "\<forall>x\<in>set xs. \<exists>y. f x = Inr y \<Longrightarrow> \<exists>ys. traverse f xs = Inr ys"
proof (induction xs)
  case Nil
  then show ?case by simp
next
  case (Cons x xs)
  then obtain y ys where "f x = Inr y" "traverse f xs = Inr ys" by auto
  then show ?case by simp
qed

lemma month_name_in_order:
  assumes "1 \<le> k" and "k \<le> 12"
  shows "calendar_month_name ! k \<in> set month_order"
proof -
  have "month_order ! (k - 1) = calendar_month_name ! k"
    using assms by (simp add: month_order_def calendar_month_name_def)
  moreover have "k - 1 < length month_order" using assms by (simp add: month_order_eq)
  ultimately show ?thesis by (metis nth_mem)
qed

lemma month_name_all_dated:
  assumes dated: "None \<notin> set (map Date_of_entry df)"
    and valid: "\<forall>r\<in>set df. \<forall>t. Date_of_entry r = Some t \<longrightarrow> 1 \<le> ts_month t \<and> ts_month t \<le> 12"
  shows "\<exists>out. add_columns df = Inr out \<and> length out = length df
    \<and> (\<forall>i<length df. \<forall>t. Date_of_entry (df ! i) = Some t
          \<longrightarrow> month_name (out ! i) = Some (calendar_month_name ! ts_month t))"
proof -
  let ?ms = "dt_month (map Date_of_entry df)"
  have ms: "?ms = map (\<lambda>d. case d of None \<Rightarrow> NaN | Some t \<Rightarrow> IntMonth (ts_month t))
      (map Date_of_entry df)"
    using dated by (simp add: dt_month_def)
  have "\<forall>x\<in>set ?ms. \<exists>y. month_name_of x = Inr y"
    unfolding ms using valid
    by (auto simp: month_name_of_def calendar_month_name_def split: option.splits)
  then obtain names where "traverse month_name_of ?ms = Inr names"
    using traverse_total by blast
  then obtain out where out: "add_columns df = Inr out"
    by (simp add: add_columns_def)
  have "month_name (out ! i) = Some (calendar_month_name ! ts_month t)"
    if i: "i < length df" and t: "Date_of_entry (df ! i) = Some t" for i t
  proof -
    have m: "?ms ! i = IntMonth (ts_month t)" unfolding ms using i t by simp
    from i obtain n where n: "month_name_of (?ms ! i) = Inr n"
      and o: "out ! i = with_columns (df ! i) (?ms ! i) n"
      using add_columns_rows(2) [OF out] by blast
    have v: "1 \<le> ts_month t \<and> ts_month t \<le> 12" using valid i t nth_mem by blast
    then have "n = calendar_month_name ! ts_month t"
      using n m by (simp add: month_name_of_def calendar_month_name_def)
    then show ?thesis
      using o v month_name_in_order by (simp add: with_columns_def Categorical_def)
  qed
  then show ?thesis using out add_columns_rows(1) [OF out] by blast
qed

lemma month_name_all_undated:
  assumes "\<forall>r\<in>set df. Date_of_entry r = None"
  shows "add_columns df = Inr (map (\<lambda>r. with_columns r NaN []) df)"
proof -
  have ms: "dt_month (map Date_of_entry df) = map (\<lambda>r. NaN) df"
    using assms by (auto simp: dt_month_def)
  have "traverse month_name_of (map (\<lambda>r. NaN) df) = Inr (map (\<lambda>r. []) df)"
    by (induction df) (simp_all add: month_name_of_def)
  then show ?thesis
    by (simp add: add_columns_def ms zip_map2 zip_map1 zip_same_conv_map o_def)
qed

subsection \<open>The filters\<close>

lemma empty_not_month: "[] \<notin> set month_order"
  by (simp add: month_order_eq)

lemma Categorical_in_categories:
  "Categorical categories v = Some m \<Longrightarrow> m \<in> set categories"
  by (auto simp: Categorical_def split: if_splits)

lemma add_columns_month_name:
  assumes "add_columns df = Inr out" and "r \<in> set out"
  shows "(\<forall>m. month_name r = Some m \<longrightarrow> m \<in> set month_order)
    \<and> (Date_of_entry r = None \<longrightarrow> month_name r = None)"
proof -
  from assms(2) obtain i where i: "i < length out" and r: "r = out ! i"
    by (auto simp: in_set_conv_nth)
  then have il: "i < length df" using add_columns_rows(1) [OF assms(1)] by simp
  let ?m = "dt_month (map Date_of_entry df) ! i"
  from il obtain n where n: "month_name_of ?m = Inr n" and o: "out ! i = with_columns (df ! i) ?m n"
    using add_columns_rows(2) [OF assms(1)] by blast
  have mn: "month_name r = Categorical month_order n" and d: "Date_of_entry r = Date_of_entry (df ! i)"
    using r o by (simp_all add: with_columns_def)
  have "n = []" if "Date_of_entry (df ! i) = None"
  proof -
    have "?m = NaN" using that il by (simp add: dt_month_def)
    then show ?thesis using n by (simp add: month_name_of_def)
  qed
  then have "Date_of_entry r = None \<longrightarrow> month_name r = None"
    using mn d empty_not_month by (simp add: Categorical_def)
  moreover have "\<forall>m. month_name r = Some m \<longrightarrow> m \<in> set month_order"
    using mn Categorical_in_categories by simp
  ultimately show ?thesis by blast
qed

text \<open>
  C10. For every pair of selections, every record of the filtered frame has a month name
  that is one of the twelve calendar months and a date that is not null; a record without
  a date is in no filtered frame, so that every aggregate is the one of the frame without
  such records.
\<close>

theorem filtered_month_name:
  assumes "transform events clusters = Inr df"
  shows "(\<forall>r\<in>set (filtered_df df orgs months).
            (\<exists>m. month_name r = Some m \<and> m \<in> set month_order \<and> m \<in> set months)
          \<and> Date_of_entry r \<noteq> None)
    \<and> render observed df orgs months
        = render observed (filter (\<lambda>r. Date_of_entry r \<noteq> None) df) orgs months"
proof -
  from assms obtain m where a: "add_columns m = Inr df"
    by (auto simp: transform_def split: sum.splits)
  have rows: "(\<exists>m. month_name r = Some m \<and> m \<in> set month_order \<and> m \<in> set months)
          \<and> Date_of_entry r \<noteq> None"
    if r: "r \<in> set (filtered_df df orgs months)" for r
  proof -
    have rd: "r \<in> set df" using r by (simp add: filtered_df_def)
    from r obtain mn where mn: "month_name r = Some mn" "mn \<in> set months"
      by (auto simp: filtered_df_def split: option.splits)
    have "mn \<in> set month_order" "Date_of_entry r \<noteq> None"
      using add_columns_month_name [OF a rd] mn by auto
    then show ?thesis using mn by simp
  qed
  have "filtered_df (filter (\<lambda>r. Date_of_entry r \<noteq> None) df) orgs months
      = filtered_df df orgs months"
    unfolding filtered_df_def filter_filter
  proof (rule filter_cong [OF refl])
    fix r assume rd: "r \<in> set df"
    have "Date_of_entry r \<noteq> None"
      if "case month_name r of None \<Rightarrow> False | Some m \<Rightarrow> m \<in> set months"
      using that add_columns_month_name [OF a rd] by (auto split: option.splits)
    then show "(Date_of_entry r \<noteq> None
         \<and> (Organization1 r \<in> set orgs
           \<and> (case month_name r of None \<Rightarrow> False | Some m \<Rightarrow> m \<in> set months)))
        = (Organization1 r \<in> set orgs
           \<and> (case month_name r of None \<Rightarrow> False | Some m \<Rightarrow> m \<in> set months))"
      by blast
  qed
  then have "render observed df orgs months
      = render observed (filter (\<lambda>r. Date_of_entry r \<noteq> None) df) orgs months"
    by (simp add: render_def)
  then show ?thesis using rows by blast
qed

lemma transform_undated: "transform example_undated example_clusters = Inr example_undated_df"
  by (simp add: transform_def example_undated_def add_PC_def purchasing_category_12
      exclude_tests_def is_test_Prod example_clusters_def merge_left_def with_Groups_def
      add_columns_def dt_month_def month_name_of_def with_columns_def Organization1_of_def
      keep_values_def Categorical_def month_order_eq example_undated_df_def)

theorem filtered_month_name_witness:
  "transform example_events example_clusters = Inr example_df
   \<and> filtered_df example_df [''Phoenix Contact - GPN''] month_order = [example_df ! 0]
   \<and> month_name (example_df ! 0) = Some ''March''
   \<and> Date_of_entry (example_df ! 0) \<noteq> None
   \<and> transform example_undated example_clusters = Inr example_undated_df
   \<and> Date_of_entry (example_undated_df ! 0) = None
   \<and> filtered_df example_undated_df [''Phoenix Contact - GPN''] month_order = []"
proof -
  have f: "filtered_df example_df [''Phoenix Contact - GPN''] month_order = [example_df ! 0]"
    by (simp add: filtered_df_def example_df_def month_order_eq)
  have "\<forall>r\<in>set (filtered_df example_df [''Phoenix Contact - GPN''] month_order).
            (\<exists>m. month_name r = Some m \<and> m \<in> set month_order \<and> m \<in> set month_order)
          \<and> Date_of_entry r \<noteq> None"
    using filtered_month_name [OF transform_example] by blast
  then have "Date_of_entry (example_df ! 0) \<noteq> None" by (simp add: f)
  moreover have "month_name (example_df ! 0) = Some ''March''" by (simp add: example_df_def)
  moreover have "filtered_df example_undated_df [''Phoenix Contact - GPN''] month_order = []"
    by (simp add: filtered_df_def example_undated_df_def)
  moreover have "Date_of_entry (example_undated_df ! 0) = None"
    by (simp add: example_undated_df_def)
  ultimately show ?thesis using f transform_example transform_undated by simp
qed

lemma monthly_counts_Nil: "monthly_counts observed [] = []"
  by (simp add: monthly_counts_def axis_levels_def)

lemma pivot_table_Nil:
  "pivot_table observed ikey iax ckey cax [] = \<lparr>p_index = [], p_columns = [], p_cells = []\<rparr>"
  by (simp add: pivot_table_def)

lemma pivot_table1_Nil:
  "pivot_table1 observed [] =
     \<lparr>p_index = month_order, p_columns = [], p_cells = replicate 12 []\<rparr>"
  by (simp add: pivot_table1_def pivot_table_Nil reindex_def month_order_eq eval_nat_numeral)

text \<open>
  C9. With no organization selected, or no month, the filtered frame has no row: the
  count of events is zero, the monthly counts have no row, the first pivot table has no
  cell (its twelve month labels, no column), and the charts and the pivot table of the
  fallback subset are skipped.
\<close>

theorem empty_selection:
  assumes "orgs = [] \<or> months = []"
  shows "filtered_df df orgs months = []
    \<and> render observed df orgs months =
        \<lparr>total_events = 0, chart_monthly = [], chart_cluster = None, chart_org = None,
         table1 = \<lparr>p_index = month_order, p_columns = [], p_cells = replicate 12 []\<rparr>,
         table2 = None\<rparr>
    \<and> pivot_empty (table1 (render observed df orgs months))"
proof -
  have f: "filtered_df df orgs months = []"
    using assms by (auto simp: filtered_df_def filter_empty_conv split: option.splits)
  have r: "render observed df orgs months =
        \<lparr>total_events = 0, chart_monthly = [], chart_cluster = None, chart_org = None,
         table1 = \<lparr>p_index = month_order, p_columns = [], p_cells = replicate 12 []\<rparr>,
         table2 = None\<rparr>"
    by (simp add: render_def f df_gpn_def monthly_counts_Nil pivot_table1_Nil)
  show ?thesis using f r by (simp add: pivot_empty_def)
qed

theorem empty_selection_witness:
  "filtered_df example_df [] month_order = []
   \<and> total_events (render False example_df [] month_order) = 0
   \<and> chart_monthly (render True example_df [''Phoenix Contact - GPN''] []) = []
   \<and> table2 (render True example_df [''Phoenix Contact - GPN''] []) = None
   \<and> filtered_df example_df [''Phoenix Contact - GPN''] month_order \<noteq> []"
proof -
  have "filtered_df example_df [''Phoenix Contact - GPN''] month_order \<noteq> []"
    by (simp add: filtered_df_def example_df_def month_order_eq)
  then show ?thesis
    using empty_selection [of "[]" month_order example_df False]
      empty_selection [of "[''Phoenix Contact - GPN'']" "[]" example_df True]
    by simp
qed

subsection \<open>The aggregates\<close>

lemma set_map_filter: "set (List.map_filter f xs) = {y. \<exists>x\<in>set xs. f x = Some y}"
proof (induction xs)
  case Nil
  then show ?case by (simp add: List.map_filter_simps)
next
  case (Cons x xs)
  then show ?case by (cases "f x") (auto simp: List.map_filter_simps)
qed

lemma group_size_both_keys:
  "group_size k1 k2 (filter (\<lambda>r. k1 r \<noteq> None \<and> k2 r \<noteq> None) df) a b = group_size k1 k2 df a b"
proof -
  have "filter (\<lambda>r. (k1 r \<noteq> None \<and> k2 r \<noteq> None) \<and> k1 r = Some a \<and> k2 r = Some b) df
      = filter (\<lambda>r. k1 r = Some a \<and> k2 r = Some b) df"
    by (rule filter_cong) auto
  then show ?thesis by (simp add: group_size_def)
qed

lemma group_size_absent:
  "b \<notin> set (List.map_filter k2 df) \<Longrightarrow> group_size k1 k2 df a b = 0"
  by (auto simp: group_size_def set_map_filter filter_empty_conv)

lemma month_column_levels:
  assumes "m \<in> set month_order"
    and "m \<notin> set (axis_levels observed (Category month_order) vals)"
  shows "m \<notin> set vals"
  using assms by (cases observed) (auto simp: axis_levels_def)

lemma pivot_by_month:
  "reindex_columns month_order 0
     (pivot_table observed ikey Object month_name (Category month_order) df)
   = \<lparr>p_index =
        sort (remdups (List.map_filter ikey
          (filter (\<lambda>r. ikey r \<noteq> None \<and> month_name r \<noteq> None) df))),
      p_columns = month_order,
      p_cells =
        map (\<lambda>i. map (\<lambda>m. Some (group_size ikey month_name df i m)) month_order)
          (sort (remdups (List.map_filter ikey
            (filter (\<lambda>r. ikey r \<noteq> None \<and> month_name r \<noteq> None) df))))\<rparr>"
proof (cases "filter (\<lambda>r. ikey r \<noteq> None \<and> month_name r \<noteq> None) df = []")
  case True
  then show ?thesis
    by (simp add: pivot_table_def reindex_columns_def List.map_filter_simps)
next
  case False
  let ?kept = "filter (\<lambda>r. ikey r \<noteq> None \<and> month_name r \<noteq> None) df"
  let ?cols = "axis_levels observed (Category month_order) (List.map_filter month_name ?kept)"
  have cell: "(case map_of (zip ?cols (map (\<lambda>c. Some (group_size ikey month_name ?kept i c)) ?cols)) m of
        Some v \<Rightarrow> v | None \<Rightarrow> Some 0) = Some (group_size ikey month_name df i m)"
    if m: "m \<in> set month_order" for i m
  proof (cases "m \<in> set ?cols")
    case True
    then have "map_of (zip ?cols (map (\<lambda>c. Some (group_size ikey month_name ?kept i c)) ?cols)) m
        = Some (Some (group_size ikey month_name ?kept i m))"
      by (simp only: map_of_zip_map if_True)
    then show ?thesis by (simp only: option.case group_size_both_keys)
  next
    case False
    then have "m \<notin> set (List.map_filter month_name ?kept)"
      using m month_column_levels by blast
    then have "group_size ikey month_name ?kept i m = 0" by (rule group_size_absent)
    then have z: "group_size ikey month_name df i m = 0" by (simp only: group_size_both_keys)
    have "map_of (zip ?cols (map (\<lambda>c. Some (group_size ikey month_name ?kept i c)) ?cols)) m
        = None"
      using False by (simp only: map_of_zip_map if_False)
    then show ?thesis by (simp only: option.case z)
  qed
  show ?thesis
    using False cell
    by (simp add: pivot_table_def reindex_columns_def axis_levels_def [of observed Object]
        Let_def o_def cong: map_cong)
qed

lemma axis_levels_cong:
  "set vals = set vals' \<Longrightarrow> axis_levels observed ax vals = axis_levels observed ax vals'"
proof (cases ax)
  case Object
  assume "set vals = set vals'"
  then have "sorted_list_of_set (set vals) = sorted_list_of_set (set vals')" by simp
  then have "sort (remdups vals) = sort (remdups vals')"
    by (simp only: sorted_list_of_set_sort_remdups)
  then show ?thesis using Object by (simp add: axis_levels_def)
next
  case (Category cs)
  assume "set vals = set vals'"
  then show ?thesis using Category by (simp add: axis_levels_def)
qed

lemma length_filter_mset:
  "mset xs = mset ys \<Longrightarrow> length (filter P xs) = length (filter P ys)"
proof -
  assume "mset xs = mset ys"
  then have "filter_mset P (mset xs) = filter_mset P (mset ys)" by (rule arg_cong)
  then have "mset (filter P xs) = mset (filter P ys)" by (simp only: mset_filter)
  then show ?thesis by (rule mset_eq_length)
qed

lemma group_size_mset:
  "mset xs = mset ys \<Longrightarrow> group_size k1 k2 xs a b = group_size k1 k2 ys a b"
  unfolding group_size_def by (rule length_filter_mset)

lemma Nil_mset: "mset xs = mset ys \<Longrightarrow> (xs = []) = (ys = [])"
  using mset_eq_length [of xs ys] by auto

lemma pivot_table_mset:
  assumes "mset df = mset df'"
  shows "pivot_table observed ikey iax ckey cax df = pivot_table observed ikey iax ckey cax df'"
proof -
  let ?P = "\<lambda>r. ikey r \<noteq> None \<and> ckey r \<noteq> None"
  have k: "mset (filter ?P df) = mset (filter ?P df')"
    using arg_cong [OF assms, of "filter_mset ?P"] by (simp only: mset_filter)
  have s: "set (filter ?P df) = set (filter ?P df')" using k by (rule mset_eq_setD)
  have e: "(filter ?P df = []) = (filter ?P df' = [])" using k by (rule Nil_mset)
  have i: "axis_levels observed iax (List.map_filter ikey (filter ?P df))
      = axis_levels observed iax (List.map_filter ikey (filter ?P df'))"
    by (rule axis_levels_cong) (simp only: set_map_filter s)
  have c: "axis_levels observed cax (List.map_filter ckey (filter ?P df))
      = axis_levels observed cax (List.map_filter ckey (filter ?P df'))"
    by (rule axis_levels_cong) (simp only: set_map_filter s)
  have g: "group_size ikey ckey (filter ?P df) = group_size ikey ckey (filter ?P df')"
    using group_size_mset [OF k] by blast
  show ?thesis unfolding pivot_table_def Let_def by (simp only: e i c g)
qed

lemma monthly_counts_mset:
  assumes "mset df = mset df'"
  shows "monthly_counts observed df = monthly_counts observed df'"
proof -
  let ?P = "\<lambda>r. month_name r \<noteq> None"
  have k: "mset (filter ?P df) = mset (filter ?P df')"
    using arg_cong [OF assms, of "filter_mset ?P"] by (simp only: mset_filter)
  have s: "set (filter ?P df) = set (filter ?P df')" using k by (rule mset_eq_setD)
  have o: "axis_levels observed Object (map Organization1 (filter ?P df))
      = axis_levels observed Object (map Organization1 (filter ?P df'))"
    by (rule axis_levels_cong) (simp only: set_map s)
  have m: "axis_levels observed (Category month_order) (List.map_filter month_name (filter ?P df))
      = axis_levels observed (Category month_order) (List.map_filter month_name (filter ?P df'))"
    by (rule axis_levels_cong) (simp only: set_map_filter s)
  have g: "group_size (\<lambda>r. Some (Organization1 r)) month_name (filter ?P df)
      = group_size (\<lambda>r. Some (Organization1 r)) month_name (filter ?P df')"
    using group_size_mset [OF k] by blast
  show ?thesis unfolding monthly_counts_def Let_def by (simp only: o m g)
qed

lemma group_size_kept:
  "group_size (\<lambda>r. Some (Organization1 r)) month_name (filter (\<lambda>r. month_name r \<noteq> None) df) org m
     = length (filter (\<lambda>r. Organization1 r = org \<and> month_name r = Some m) df)"
proof -
  have "filter (\<lambda>r. month_name r \<noteq> None \<and> Some (Organization1 r) = Some org \<and> month_name r = Some m) df
      = filter (\<lambda>r. Organization1 r = org \<and> month_name r = Some m) df"
    by (rule filter_cong) auto
  then show ?thesis by (simp add: group_size_def conj_commute)
qed

lemma length_filter_pos: "0 < length (filter P xs) \<longleftrightarrow> (\<exists>x\<in>set xs. P x)"
  by (simp add: filter_empty_conv)

lemma monthly_counts_set:
  "set (monthly_counts observed df) =
     {(org, m, n).
        org \<in> Organization1 ` {r \<in> set df. month_name r \<noteq> None}
      \<and> m \<in> set month_order
      \<and> n = length (filter (\<lambda>r. Organization1 r = org \<and> month_name r = Some m) df)
      \<and> (if observed then 0 < n else True)}"
proof -
  let ?kept = "filter (\<lambda>r. month_name r \<noteq> None) df"
  let ?n = "\<lambda>org m. length (filter (\<lambda>r. Organization1 r = org \<and> month_name r = Some m) df)"
  have orgs: "set (axis_levels observed Object (map Organization1 ?kept))
      = Organization1 ` {r \<in> set df. month_name r \<noteq> None}"
    by (auto simp: axis_levels_def)
  have months: "(m \<in> set (axis_levels observed (Category month_order) (List.map_filter month_name ?kept))
      \<and> (if observed then 0 < ?n org m else True))
      \<longleftrightarrow> (m \<in> set month_order \<and> (if observed then 0 < ?n org m else True))" for m org
  proof (cases observed)
    case True
    have "m \<in> set (List.map_filter month_name ?kept)" if "0 < ?n org m"
    proof -
      from that obtain r where "r \<in> set df" "month_name r = Some m"
        unfolding length_filter_pos by blast
      then show ?thesis unfolding set_map_filter by auto
    qed
    then show ?thesis using True by (auto simp: axis_levels_def)
  next
    case False
    then show ?thesis by (simp add: axis_levels_def)
  qed
  have "set (monthly_counts observed df) =
      (\<Union>org\<in>Organization1 ` {r \<in> set df. month_name r \<noteq> None}.
         (\<lambda>m. (org, m, ?n org m)) `
           {m. m \<in> set (axis_levels observed (Category month_order) (List.map_filter month_name ?kept))
             \<and> (if observed then 0 < ?n org m else True)})"
    unfolding monthly_counts_def Let_def group_size_kept
    by (simp only: set_concat set_map set_filter orgs image_image) 
  also have "\<dots> = (\<Union>org\<in>Organization1 ` {r \<in> set df. month_name r \<noteq> None}.
         (\<lambda>m. (org, m, ?n org m)) `
           {m. m \<in> set month_order \<and> (if observed then 0 < ?n org m else True)})"
    by (simp only: months)
  also have "\<dots> = {(org, m, n).
        org \<in> Organization1 ` {r \<in> set df. month_name r \<noteq> None}
      \<and> m \<in> set month_order
      \<and> n = ?n org m
      \<and> (if observed then 0 < n else True)}"
    by auto
  finally show ?thesis .
qed

lemma transform_unclustered:
  "transform example_unclustered example_clusters = Inr example_unclustered_df"
  by (simp add: transform_def example_unclustered_def add_PC_def purchasing_category_12
      purchasing_category_Cable exclude_tests_def is_test_Prod is_test_None
      example_clusters_def merge_left_def with_Groups_def
      add_columns_def dt_month_def month_name_of_def calendar_month_name_def with_columns_def
      Organization1_of_def keep_values_def Categorical_def month_order_eq
      example_unclustered_df_def)

lemma df_gpn_unclustered:
  "df_gpn (filtered_df example_unclustered_df [''Phoenix Contact - GPN''] month_order)
     = example_unclustered_df"
  by (simp add: df_gpn_def filtered_df_def example_unclustered_df_def month_order_eq)

lemma pivot_cluster_closed:
  "pivot_cluster observed gpn =
     \<lparr>p_index =
        sort (remdups (List.map_filter Groups
          (filter (\<lambda>r. Groups r \<noteq> None \<and> month_name r \<noteq> None) gpn))),
      p_columns = month_order,
      p_cells =
        map (\<lambda>i. map (\<lambda>m. Some (group_size Groups month_name gpn i m)) month_order)
          (sort (remdups (List.map_filter Groups
            (filter (\<lambda>r. Groups r \<noteq> None \<and> month_name r \<noteq> None) gpn))))\<rparr>"
  unfolding pivot_cluster_def by (rule pivot_by_month)

text \<open>
  C3. The cluster-by-month cross-tabulation of the fallback subset has one row per
  cluster label that a record with a month name carries, sorted and without repetition, and
  the twelve months in calendar order as columns; a cell is the number of records with the
  cluster of its row and the month of its column, zero when there is none. A record whose
  cluster is null has no row and is in no cell.
\<close>

theorem pivot_cluster_cross_tab:
  "p_columns (pivot_cluster observed gpn) = month_order
   \<and> sorted (p_index (pivot_cluster observed gpn))
   \<and> distinct (p_index (pivot_cluster observed gpn))
   \<and> set (p_index (pivot_cluster observed gpn))
        = {g. \<exists>r\<in>set gpn. Groups r = Some g \<and> month_name r \<noteq> None}
   \<and> p_cells (pivot_cluster observed gpn)
        = map (\<lambda>g. map (\<lambda>m.
              Some (length (filter (\<lambda>r. Groups r = Some g \<and> month_name r = Some m) gpn)))
            month_order)
          (p_index (pivot_cluster observed gpn))"
  by (auto simp: pivot_cluster_closed set_map_filter group_size_def)

theorem pivot_cluster_cross_tab_witness:
  "p_index (pivot_cluster True example_unclustered_df) = [''ClusterA'']
   \<and> p_columns (pivot_cluster True example_unclustered_df) = month_order
   \<and> p_cells (pivot_cluster True example_unclustered_df)
       = [[Some 0, Some 0, Some 1, Some 0, Some 0, Some 0, Some 0, Some 0, Some 0, Some 0,
           Some 0, Some 0]]"
proof -
  have i: "p_index (pivot_cluster True example_unclustered_df) = [''ClusterA'']"
    by (simp add: pivot_cluster_closed example_unclustered_df_def List.map_filter_simps)
  show ?thesis
    using pivot_cluster_cross_tab [of True example_unclustered_df]
    by (simp add: i) (simp add: example_unclustered_df_def month_order_eq)
qed

theorem pivot_cluster_counterexample:
  "transform example_unclustered example_clusters = Inr example_unclustered_df
   \<and> df_gpn (filtered_df example_unclustered_df [''Phoenix Contact - GPN''] month_order)
       = example_unclustered_df
   \<and> Groups (example_unclustered_df ! 1) = None
   \<and> month_name (example_unclustered_df ! 1) = Some ''March''
   \<and> p_index (pivot_cluster False example_unclustered_df) = [''ClusterA'']
   \<and> p_index (pivot_cluster True example_unclustered_df) = [''ClusterA'']
   \<and> p_cells (pivot_cluster False example_unclustered_df)
       = [[Some 0, Some 0, Some 1, Some 0, Some 0, Some 0, Some 0, Some 0, Some 0, Some 0,
           Some 0, Some 0]]
   \<and> p_cells (pivot_cluster True example_unclustered_df)
       = [[Some 0, Some 0, Some 1, Some 0, Some 0, Some 0, Some 0, Some 0, Some 0, Some 0,
           Some 0, Some 0]]"
proof -
  have p: "p_index (pivot_cluster observed example_unclustered_df) = [''ClusterA'']
      \<and> p_cells (pivot_cluster observed example_unclustered_df)
       = [[Some 0, Some 0, Some 1, Some 0, Some 0, Some 0, Some 0, Some 0, Some 0, Some 0,
           Some 0, Some 0]]" for observed
    by (simp add: pivot_cluster_closed example_unclustered_df_def List.map_filter_simps
        group_size_def month_order_eq)
  show ?thesis
    using transform_unclustered df_gpn_unclustered p [of True] p [of False]
    by (simp add: example_unclustered_df_def)
qed

text \<open>
  C6. Grouped with \<open>observed\<close> True, the default from pandas 3.0, the monthly counts
  hold a row for exactly the combinations of organization and month that a record has, each
  with its count, none of them zero. Grouped with \<open>observed\<close> False, the default before
  3.0, they hold a row for every organization present and every one of the twelve months,
  with the count zero where no record has the combination.
\<close>

theorem monthly_counts_sparsity:
  "set (monthly_counts True df) =
     {(org, m, n). m \<in> set month_order
        \<and> n = length (filter (\<lambda>r. Organization1 r = org \<and> month_name r = Some m) df)
        \<and> 0 < n}
   \<and> set (monthly_counts False df) =
     {(org, m, n). org \<in> Organization1 ` {r \<in> set df. month_name r \<noteq> None}
        \<and> m \<in> set month_order
        \<and> n = length (filter (\<lambda>r. Organization1 r = org \<and> month_name r = Some m) df)}"
proof -
  have "org \<in> Organization1 ` {r \<in> set df. month_name r \<noteq> None}"
    if "0 < length (filter (\<lambda>r. Organization1 r = org \<and> month_name r = Some m) df)" for org m
  proof -
    from that obtain r where "r \<in> set df" "Organization1 r = org" "month_name r = Some m"
      unfolding length_filter_pos by blast
    then show ?thesis by force
  qed
  then show ?thesis unfolding monthly_counts_set by auto
qed

theorem monthly_counts_sparsity_witness:
  "(''Phoenix Contact - GPN'', ''March'', 1) \<in> set (monthly_counts True example_df)
   \<and> (''Phoenix Contact - GPN'', ''January'', 0) \<notin> set (monthly_counts True example_df)"
  unfolding conjunct1 [OF monthly_counts_sparsity [of example_df]]
  by (simp add: example_df_def month_order_eq)

theorem monthly_counts_sparsity_counterexample:
  "length (filter (\<lambda>r. Organization1 r = ''Phoenix Contact - GPN''
       \<and> month_name r = Some ''January'') example_df) = 0
   \<and> (''Phoenix Contact - GPN'', ''January'', 0) \<in> set (monthly_counts False example_df)"
proof -
  have c: "length (filter (\<lambda>r. Organization1 r = ''Phoenix Contact - GPN''
       \<and> month_name r = Some ''January'') example_df) = 0"
    by (simp add: example_df_def)
  have "example_df ! 0 \<in> {r \<in> set example_df. month_name r \<noteq> None}"
    by (simp add: example_df_def)
  then have "Organization1 (example_df ! 0)
      \<in> Organization1 ` {r \<in> set example_df. month_name r \<noteq> None}"
    by (rule imageI)
  then have o: "''Phoenix Contact - GPN''
      \<in> Organization1 ` {r \<in> set example_df. month_name r \<noteq> None}"
    by (simp add: example_df_def)
  have m: "''January'' \<in> set month_order" by (simp add: month_order_eq)
  have "(''Phoenix Contact - GPN'', ''January'', 0) \<in> set (monthly_counts False example_df)"
    unfolding monthly_counts_set using o m c by simp
  then show ?thesis using c by simp
qed

lemma filter_block:
  "filter (\<lambda>row. fst row = org) (map (\<lambda>m. (g, m, c g m)) ms)
     = (if g = org then map (\<lambda>m. (g, m, c g m)) ms else [])"
  by (induction ms) auto

lemma filter_concat_blocks:
  "distinct gs \<Longrightarrow>
     filter (\<lambda>row. fst row = org) (concat (map (\<lambda>g. map (\<lambda>m. (g, m, c g m)) (ms g)) gs))
       = (if org \<in> set gs then map (\<lambda>m. (org, m, c org m)) (ms org) else [])"
proof (induction gs)
  case Nil
  then show ?case by simp
next
  case (Cons g gs)
  then show ?case by (auto simp: filter_block)
qed

lemma subseq_month_levels:
  "subseq (axis_levels observed (Category month_order) vals) month_order"
  by (simp add: axis_levels_def)

lemma monthly_counts_calendar_order:
  "subseq (map (fst \<circ> snd) (filter (\<lambda>row. fst row = org) (monthly_counts observed df)))
     month_order"
proof -
  let ?kept = "filter (\<lambda>r. month_name r \<noteq> None) df"
  let ?orgs = "axis_levels observed Object (map Organization1 ?kept)"
  let ?months = "axis_levels observed (Category month_order) (List.map_filter month_name ?kept)"
  let ?c = "\<lambda>org m. group_size (\<lambda>r. Some (Organization1 r)) month_name ?kept org m"
  let ?ms = "\<lambda>org. filter (\<lambda>m. if observed then 0 < ?c org m else True) ?months"
  have d: "distinct ?orgs" by (simp add: axis_levels_def)
  have "filter (\<lambda>row. fst row = org) (monthly_counts observed df)
      = (if org \<in> set ?orgs then map (\<lambda>m. (org, m, ?c org m)) (?ms org) else [])"
    unfolding monthly_counts_def Let_def by (rule filter_concat_blocks [OF d])
  then have "map (fst \<circ> snd) (filter (\<lambda>row. fst row = org) (monthly_counts observed df))
      = (if org \<in> set ?orgs then ?ms org else [])"
    by (simp add: o_def)
  moreover have "subseq (?ms org) month_order"
    using subseq_filter_left subseq_month_levels by (rule subseq_order.trans)
  ultimately show ?thesis by simp
qed

lemma filter_mset_cong: "mset xs = mset ys \<Longrightarrow> mset (filter P xs) = mset (filter P ys)"
  using arg_cong [of "mset xs" "mset ys" "filter_mset P"] by (simp only: mset_filter)

lemma render_mset:
  assumes "mset df' = mset df"
  shows "render observed df' orgs months = render observed df orgs months"
proof -
  have f: "mset (filtered_df df' orgs months) = mset (filtered_df df orgs months)"
    unfolding filtered_df_def using assms by (rule filter_mset_cong)
  have g: "mset (df_gpn (filtered_df df' orgs months)) = mset (df_gpn (filtered_df df orgs months))"
    unfolding df_gpn_def using f by (rule filter_mset_cong)
  have l: "length (filtered_df df' orgs months) = length (filtered_df df orgs months)"
    using f by (rule mset_eq_length)
  have e: "(df_gpn (filtered_df df' orgs months) = []) = (df_gpn (filtered_df df orgs months) = [])"
    using g by (rule Nil_mset)
  have m: "monthly_counts observed (filtered_df df' orgs months)
      = monthly_counts observed (filtered_df df orgs months)"
    using f by (rule monthly_counts_mset)
  have c: "pivot_cluster observed (df_gpn (filtered_df df' orgs months))
      = pivot_cluster observed (df_gpn (filtered_df df orgs months))"
    unfolding pivot_cluster_def by (simp only: pivot_table_mset [OF g])
  have o: "pivot_org observed (df_gpn (filtered_df df' orgs months))
      = pivot_org observed (df_gpn (filtered_df df orgs months))"
    unfolding pivot_org_def by (simp only: pivot_table_mset [OF g])
  have t1: "pivot_table1 observed (filtered_df df' orgs months)
      = pivot_table1 observed (filtered_df df orgs months)"
    unfolding pivot_table1_def by (simp only: pivot_table_mset [OF f])
  have t2: "pivot_table2 observed (df_gpn (filtered_df df' orgs months))
      = pivot_table2 observed (df_gpn (filtered_df df orgs months))"
    unfolding pivot_table2_def by (simp only: pivot_table_mset [OF g])
  show ?thesis unfolding render_def Let_def by (simp only: l e m c o t1 t2)
qed

text \<open>
  C5. The month axis of every pivot is the twelve months from January to December: the
  columns of the two cross-tabulations of the fallback subset, and the rows of the two
  pivot tables, whatever months have events. The months of an organization in the monthly
  counts follow each other in calendar order. Nothing of a report depends on the order of
  the rows of the frame.
\<close>

theorem calendar_order:
  "month_order =
     [''January'', ''February'', ''March'', ''April'', ''May'', ''June'', ''July'',
      ''August'', ''September'', ''October'', ''November'', ''December'']
   \<and> p_columns (pivot_cluster observed gpn) = month_order
   \<and> p_columns (pivot_org observed gpn) = month_order
   \<and> p_index (pivot_table1 observed fdf) = month_order
   \<and> p_index (pivot_table2 observed gpn) = month_order
   \<and> subseq (map (fst \<circ> snd) (filter (\<lambda>row. fst row = org) (monthly_counts observed fdf)))
        month_order
   \<and> (mset df' = mset df
        \<longrightarrow> render observed df' orgs months = render observed df orgs months)"
proof (intro conjI impI)
  show "month_order =
     [''January'', ''February'', ''March'', ''April'', ''May'', ''June'', ''July'',
      ''August'', ''September'', ''October'', ''November'', ''December'']"
    by (rule month_order_eq)
  show "p_columns (pivot_cluster observed gpn) = month_order"
    by (simp add: pivot_cluster_def reindex_columns_def)
  show "p_columns (pivot_org observed gpn) = month_order"
    by (simp add: pivot_org_def reindex_columns_def)
  show "p_index (pivot_table1 observed fdf) = month_order"
    by (simp add: pivot_table1_def reindex_def)
  show "p_index (pivot_table2 observed gpn) = month_order"
    by (simp add: pivot_table2_def reindex_def)
  show "subseq (map (fst \<circ> snd) (filter (\<lambda>row. fst row = org) (monthly_counts observed fdf)))
        month_order"
    by (rule monthly_counts_calendar_order)
  show "render observed df' orgs months = render observed df orgs months"
    if "mset df' = mset df"
    using that by (rule render_mset)
qed

theorem calendar_order_witness:
  "mset (rev example_df) = mset example_df
   \<and> render False (rev example_df) [''Phoenix Contact - GPN''] month_order
       = render False example_df [''Phoenix Contact - GPN''] month_order
   \<and> p_index (pivot_table1 False example_df) = month_order
   \<and> p_columns (pivot_cluster False example_df) = month_order
   \<and> subseq (map (fst \<circ> snd) (filter (\<lambda>row. fst row = ''Phoenix Contact - GPN'')
         (monthly_counts False example_df))) month_order"
proof -
  have m: "mset (rev example_df) = mset example_df" by simp
  show ?thesis
    using calendar_order [of False example_df example_df "''Phoenix Contact - GPN''"
        "rev example_df" example_df "[''Phoenix Contact - GPN'']" month_order] m
    by blast
qed

end
